theory Spec2Isabelle
  imports Complex_Main
begin

section \<open>Numbers, points and the three.js vector operations\<close>

text \<open>
  JavaScript numbers are modelled as \<^typ>\<open>real\<close>. In the embedding of each component
  the arithmetic is exact: \<open>Math.sqrt\<close> is \<^const>\<open>sqrt\<close>, \<open>Math.pow(a, 2)\<close> is \<open>a\<^sup>2\<close>,
  \<open>Math.sin\<close> and \<open>Math.cos\<close> are \<^const>\<open>sin\<close> and \<^const>\<open>cos\<close>. Properties that
  hold by the order of the branches and by the comparisons the code makes do not depend
  on this. The two properties that do (scale invariance of the classifier, convergence
  of the smoothing step) are stated over the same code with rounded arithmetic: the
  classifier over an arbitrary arithmetic, the smoothing step over IEEE doubles.
\<close>

datatype AppState = TREE | SCATTER | HEART | PHOTO_VIEW

datatype GestureType = NONE | OPEN_PALM | CLOSED_FIST | PINCH

datatype js_error = TypeError

text \<open>A MediaPipe landmark: normalised \<open>x\<close>, \<open>y\<close> and relative depth \<open>z\<close>.\<close>

record landmark =
  lm_x :: real
  lm_y :: real
  lm_z :: real

text \<open>A \<open>THREE.Vector3\<close>.\<close>

record vec3 =
  vx :: real
  vy :: real
  vz :: real

text \<open>
  The three.js operations the components call. \<open>a.distanceTo(b)\<close> is the Euclidean
  distance; \<open>a.lerp(v, alpha)\<close> overwrites \<open>a\<close> with \<open>a + (v - a) * alpha\<close>
  componentwise (the model returns the new vector); \<open>a.clone().add(v)\<close> is the
  componentwise sum; \<open>THREE.MathUtils.lerp(x, y, t)\<close> is \<open>(1 - t) * x + t * y\<close>.
\<close>

definition distanceTo :: "vec3 \<Rightarrow> vec3 \<Rightarrow> real" where
  "distanceTo a b = sqrt ((vx a - vx b)\<^sup>2 + (vy a - vy b)\<^sup>2 + (vz a - vz b)\<^sup>2)"

definition lerp :: "vec3 \<Rightarrow> vec3 \<Rightarrow> real \<Rightarrow> vec3" where
  "lerp a v alpha =
     \<lparr>vx = vx a + (vx v - vx a) * alpha,
      vy = vy a + (vy v - vy a) * alpha,
      vz = vz a + (vz v - vz a) * alpha\<rparr>"

definition add3 :: "vec3 \<Rightarrow> vec3 \<Rightarrow> vec3" where
  "add3 a v = \<lparr>vx = vx a + vx v, vy = vy a + vy v, vz = vz a + vz v\<rparr>"

definition MathUtils_lerp :: "real \<Rightarrow> real \<Rightarrow> real \<Rightarrow> real" where
  "MathUtils_lerp x y t = (1 - t) * x + t * y"

subsection \<open>IEEE double arithmetic\<close>

text \<open>
  Where a property depends on rounding, the operations are taken as JavaScript
  performs them: \<open>+\<close>, \<open>-\<close>, \<open>*\<close> and \<open>Math.sqrt\<close> return the exact result rounded to
  the nearest double, ties to even, and a decimal literal denotes the double nearest
  to it. \<open>round_double\<close> is that rounding: 53 significant bits, exponents from -1022
  up, gradual underflow below. It has no overflow: it agrees with JavaScript as long
  as the exact result is less than \<open>2\<^sup>1\<^sup>0\<^sup>2\<^sup>4\<close> in magnitude.
\<close>

definition roundTiesToEven :: "real \<Rightarrow> int" where
  "roundTiesToEven z =
     (if frac z < 1/2 then \<lfloor>z\<rfloor>
      else if 1/2 < frac z then \<lfloor>z\<rfloor> + 1
      else if even \<lfloor>z\<rfloor> then \<lfloor>z\<rfloor> else \<lfloor>z\<rfloor> + 1)"

definition exponentOf :: "real \<Rightarrow> int" where
  "exponentOf x = max \<lfloor>log 2 \<bar>x\<bar>\<rfloor> (- 1022)"

definition ulp :: "real \<Rightarrow> real" where
  "ulp x = 2 powr (real_of_int (exponentOf x) - 52)"

definition round_double :: "real \<Rightarrow> real" where
  "round_double x = (if x = 0 then 0 else ulp x * real_of_int (roundTiesToEven (x / ulp x)))"

text \<open>
  A double small enough that the difference of two such numbers does not overflow.
\<close>

definition safeDouble :: "real \<Rightarrow> bool" where
  "safeDouble x \<longleftrightarrow> round_double x = x \<and> \<bar>x\<bar> \<le> 2 ^ 1022"

definition safeDoubleVec :: "vec3 \<Rightarrow> bool" where
  "safeDoubleVec v \<longleftrightarrow> safeDouble (vx v) \<and> safeDouble (vy v) \<and> safeDouble (vz v)"

text \<open>
  \<open>a.lerp(v, alpha)\<close> as three.js computes it on doubles, for each component:
  \<open>this.x += (v.x - this.x) * alpha\<close>.
\<close>

definition lerp1_double :: "real \<Rightarrow> real \<Rightarrow> real \<Rightarrow> real" where
  "lerp1_double x t alpha = round_double (x + round_double (round_double (t - x) * alpha))"

definition lerp_double :: "vec3 \<Rightarrow> vec3 \<Rightarrow> real \<Rightarrow> vec3" where
  "lerp_double a v alpha =
     \<lparr>vx = lerp1_double (vx a) (vx v) alpha,
      vy = lerp1_double (vy a) (vy v) alpha,
      vz = lerp1_double (vz a) (vz v) alpha\<rparr>"

text \<open>The \<open>{x, y}\<close> object returned as \<open>handCenter\<close>.\<close>

record point2 =
  pt_x :: real
  pt_y :: real

text \<open>\<open>HandLandmarkerResult\<close>: only \<open>landmarks\<close> is read; \<open>None\<close> is an absent field.\<close>

record HandLandmarkerResult =
  landmarks :: "landmark list list option"

record gesture_result =
  gtype :: GestureType
  handCenter :: "point2 option"
  pinchDistance :: real

section \<open>handRecognition.ts: the gesture classifier\<close>

text \<open>
  Array indexing \<open>a[i]\<close>: \<open>undefined\<close> (here \<open>None\<close>) past the end. Reading a
  coordinate of \<open>undefined\<close> throws a \<open>TypeError\<close>.
\<close>

definition elemAt :: "'a list \<Rightarrow> nat \<Rightarrow> 'a option" where
  "elemAt xs i = (if i < length xs then Some (xs ! i) else None)"

text \<open>The local helper \<open>dist\<close> of \<open>classifyGesture\<close>: planar distance, \<open>z\<close> ignored.\<close>

definition dist2d :: "landmark \<Rightarrow> landmark \<Rightarrow> real" where
  "dist2d p1 p2 = sqrt ((lm_x p1 - lm_x p2)\<^sup>2 + (lm_y p1 - lm_y p2)\<^sup>2)"

definition palmSize :: "landmark \<Rightarrow> landmark \<Rightarrow> real" where
  "palmSize wrist middleMCP = dist2d wrist middleMCP"

definition safeScale :: "landmark \<Rightarrow> landmark \<Rightarrow> real" where
  "safeScale wrist middleMCP =
     (if palmSize wrist middleMCP < 0.01 then 0.01 else palmSize wrist middleMCP)"

definition isPinchCandidate :: "landmark \<Rightarrow> landmark \<Rightarrow> landmark \<Rightarrow> landmark \<Rightarrow> bool" where
  "isPinchCandidate wrist middleMCP thumbTip indexTip \<longleftrightarrow>
     dist2d thumbTip indexTip < safeScale wrist middleMCP * 0.65"

definition isCurled :: "landmark \<Rightarrow> landmark \<Rightarrow> landmark \<Rightarrow> bool" where
  "isCurled wrist middleMCP tip \<longleftrightarrow> dist2d tip wrist < safeScale wrist middleMCP * 1.35"

definition curledCount :: "landmark \<Rightarrow> landmark \<Rightarrow> landmark list \<Rightarrow> nat" where
  "curledCount wrist middleMCP tips = length (filter (isCurled wrist middleMCP) tips)"

text \<open>The decision logic of \<open>classifyGesture\<close> once the seven joints have been read.\<close>

definition decide ::
  "landmark \<Rightarrow> landmark \<Rightarrow> landmark \<Rightarrow> landmark \<Rightarrow> landmark \<Rightarrow> landmark \<Rightarrow> landmark
     \<Rightarrow> gesture_result" where
  "decide thumbTip indexTip middleTip ringTip pinkyTip middleMCP wrist =
     (if curledCount wrist middleMCP [indexTip, middleTip, ringTip, pinkyTip] = 4 then
        \<lparr>gtype = CLOSED_FIST,
         handCenter = Some \<lparr>pt_x = lm_x wrist, pt_y = lm_y wrist\<rparr>,
         pinchDistance = 1\<rparr>
      else if isPinchCandidate wrist middleMCP thumbTip indexTip then
        \<lparr>gtype = PINCH,
         handCenter = Some \<lparr>pt_x = lm_x indexTip, pt_y = lm_y indexTip\<rparr>,
         pinchDistance = dist2d thumbTip indexTip\<rparr>
      else if curledCount wrist middleMCP [indexTip, middleTip, ringTip, pinkyTip] \<le> 1 then
        \<lparr>gtype = OPEN_PALM,
         handCenter = Some \<lparr>pt_x = lm_x middleMCP, pt_y = lm_y middleMCP\<rparr>,
         pinchDistance = 1\<rparr>
      else \<lparr>gtype = NONE, handCenter = None, pinchDistance = 1\<rparr>)"

text \<open>
  The part of \<open>classifyGesture\<close> after the primary hand has been selected. The joints
  4, 8, 12, 16, 20, 9 and 0 are all dereferenced (the \<open>filter\<close> visits all four tips),
  so a missing one raises. Joint 5 (\<open>indexMCP\<close>) is read but never dereferenced.
\<close>

definition classifyHand :: "landmark list \<Rightarrow> js_error + gesture_result" where
  "classifyHand lms =
     (case elemAt lms 4 of None \<Rightarrow> Inl TypeError | Some thumbTip \<Rightarrow>
     (case elemAt lms 8 of None \<Rightarrow> Inl TypeError | Some indexTip \<Rightarrow>
     (case elemAt lms 12 of None \<Rightarrow> Inl TypeError | Some middleTip \<Rightarrow>
     (case elemAt lms 16 of None \<Rightarrow> Inl TypeError | Some ringTip \<Rightarrow>
     (case elemAt lms 20 of None \<Rightarrow> Inl TypeError | Some pinkyTip \<Rightarrow>
     (case elemAt lms 9 of None \<Rightarrow> Inl TypeError | Some middleMCP \<Rightarrow>
     (case elemAt lms 0 of None \<Rightarrow> Inl TypeError | Some wrist \<Rightarrow>
        Inr (decide thumbTip indexTip middleTip ringTip pinkyTip middleMCP wrist))))))))"

definition classifyGesture :: "HandLandmarkerResult \<Rightarrow> js_error + gesture_result" where
  "classifyGesture result =
     (case landmarks result of
        None \<Rightarrow> Inr \<lparr>gtype = NONE, handCenter = None, pinchDistance = 0\<rparr>
      | Some hands \<Rightarrow>
          if length hands = 0
          then Inr \<lparr>gtype = NONE, handCenter = None, pinchDistance = 0\<rparr>
          else classifyHand (hands ! 0))"

subsection \<open>The classifier over an arbitrary arithmetic\<close>

text \<open>
  The same code with its arithmetic as a parameter: the value of a numeric literal,
  \<open>-\<close>, \<open>+\<close>, \<open>*\<close>, \<open>Math.pow(_, 2)\<close> and \<open>Math.sqrt\<close>. (The accuracy of \<open>Math.pow\<close>
  is left to the implementation by the language.) Comparisons are exact in every
  arithmetic.
\<close>

record js_math =
  m_lit :: "real \<Rightarrow> real"
  m_sub :: "real \<Rightarrow> real \<Rightarrow> real"
  m_add :: "real \<Rightarrow> real \<Rightarrow> real"
  m_mul :: "real \<Rightarrow> real \<Rightarrow> real"
  m_pow2 :: "real \<Rightarrow> real"
  m_sqrt :: "real \<Rightarrow> real"

definition dist2d_with :: "js_math \<Rightarrow> landmark \<Rightarrow> landmark \<Rightarrow> real" where
  "dist2d_with M p1 p2 =
     m_sqrt M (m_add M (m_pow2 M (m_sub M (lm_x p1) (lm_x p2)))
                       (m_pow2 M (m_sub M (lm_y p1) (lm_y p2))))"

definition safeScale_with :: "js_math \<Rightarrow> landmark \<Rightarrow> landmark \<Rightarrow> real" where
  "safeScale_with M wrist middleMCP =
     (if dist2d_with M wrist middleMCP < m_lit M 0.01 then m_lit M 0.01
      else dist2d_with M wrist middleMCP)"

definition isPinchCandidate_with ::
  "js_math \<Rightarrow> landmark \<Rightarrow> landmark \<Rightarrow> landmark \<Rightarrow> landmark \<Rightarrow> bool" where
  "isPinchCandidate_with M wrist middleMCP thumbTip indexTip \<longleftrightarrow>
     dist2d_with M thumbTip indexTip < m_mul M (safeScale_with M wrist middleMCP) (m_lit M 0.65)"

definition isCurled_with :: "js_math \<Rightarrow> landmark \<Rightarrow> landmark \<Rightarrow> landmark \<Rightarrow> bool" where
  "isCurled_with M wrist middleMCP tip \<longleftrightarrow>
     dist2d_with M tip wrist < m_mul M (safeScale_with M wrist middleMCP) (m_lit M 1.35)"

definition curledCount_with :: "js_math \<Rightarrow> landmark \<Rightarrow> landmark \<Rightarrow> landmark list \<Rightarrow> nat" where
  "curledCount_with M wrist middleMCP tips =
     length (filter (isCurled_with M wrist middleMCP) tips)"

definition decide_with ::
  "js_math \<Rightarrow> landmark \<Rightarrow> landmark \<Rightarrow> landmark \<Rightarrow> landmark \<Rightarrow> landmark \<Rightarrow> landmark
     \<Rightarrow> landmark \<Rightarrow> gesture_result" where
  "decide_with M thumbTip indexTip middleTip ringTip pinkyTip middleMCP wrist =
     (if curledCount_with M wrist middleMCP [indexTip, middleTip, ringTip, pinkyTip] = 4 then
        \<lparr>gtype = CLOSED_FIST,
         handCenter = Some \<lparr>pt_x = lm_x wrist, pt_y = lm_y wrist\<rparr>,
         pinchDistance = m_lit M 1\<rparr>
      else if isPinchCandidate_with M wrist middleMCP thumbTip indexTip then
        \<lparr>gtype = PINCH,
         handCenter = Some \<lparr>pt_x = lm_x indexTip, pt_y = lm_y indexTip\<rparr>,
         pinchDistance = dist2d_with M thumbTip indexTip\<rparr>
      else if curledCount_with M wrist middleMCP [indexTip, middleTip, ringTip, pinkyTip] \<le> 1
      then
        \<lparr>gtype = OPEN_PALM,
         handCenter = Some \<lparr>pt_x = lm_x middleMCP, pt_y = lm_y middleMCP\<rparr>,
         pinchDistance = m_lit M 1\<rparr>
      else \<lparr>gtype = NONE, handCenter = None, pinchDistance = m_lit M 1\<rparr>)"

definition classifyHand_with :: "js_math \<Rightarrow> landmark list \<Rightarrow> js_error + gesture_result" where
  "classifyHand_with M lms =
     (case elemAt lms 4 of None \<Rightarrow> Inl TypeError | Some thumbTip \<Rightarrow>
     (case elemAt lms 8 of None \<Rightarrow> Inl TypeError | Some indexTip \<Rightarrow>
     (case elemAt lms 12 of None \<Rightarrow> Inl TypeError | Some middleTip \<Rightarrow>
     (case elemAt lms 16 of None \<Rightarrow> Inl TypeError | Some ringTip \<Rightarrow>
     (case elemAt lms 20 of None \<Rightarrow> Inl TypeError | Some pinkyTip \<Rightarrow>
     (case elemAt lms 9 of None \<Rightarrow> Inl TypeError | Some middleMCP \<Rightarrow>
     (case elemAt lms 0 of None \<Rightarrow> Inl TypeError | Some wrist \<Rightarrow>
        Inr (decide_with M thumbTip indexTip middleTip ringTip pinkyTip middleMCP
               wrist))))))))"

definition classifyGesture_with ::
  "js_math \<Rightarrow> HandLandmarkerResult \<Rightarrow> js_error + gesture_result" where
  "classifyGesture_with M result =
     (case landmarks result of
        None \<Rightarrow> Inr \<lparr>gtype = NONE, handCenter = None, pinchDistance = m_lit M 0\<rparr>
      | Some hands \<Rightarrow>
          if length hands = 0
          then Inr \<lparr>gtype = NONE, handCenter = None, pinchDistance = m_lit M 0\<rparr>
          else classifyHand_with M (hands ! 0))"

text \<open>Exact arithmetic, which gives the definitions above.\<close>

definition exactMath :: js_math where
  "exactMath =
     \<lparr>m_lit = (\<lambda>c. c),
      m_sub = (\<lambda>a b. a - b),
      m_add = (\<lambda>a b. a + b),
      m_mul = (\<lambda>a b. a * b),
      m_pow2 = (\<lambda>a. a\<^sup>2),
      m_sqrt = sqrt\<rparr>"

text \<open>
  Double arithmetic, with \<open>Math.pow(a, 2)\<close> returning the correctly rounded square (one
  of the results the language allows).
\<close>

definition doubleMath :: js_math where
  "doubleMath =
     \<lparr>m_lit = round_double,
      m_sub = (\<lambda>a b. round_double (a - b)),
      m_add = (\<lambda>a b. round_double (a + b)),
      m_mul = (\<lambda>a b. round_double (a * b)),
      m_pow2 = (\<lambda>a. round_double (a * a)),
      m_sqrt = (\<lambda>a. round_double (sqrt a))\<rparr>"

subsection \<open>Uniform scaling of a detection result about the wrist\<close>

text \<open>
  The transformation of the scale-invariance property: every joint \<open>p\<close> of a hand moves
  to \<open>wrist + k * (p - wrist)\<close>, in all three coordinates, each hand about its own wrist
  (joint 0).
\<close>

definition scaleAbout :: "real \<Rightarrow> landmark \<Rightarrow> landmark \<Rightarrow> landmark" where
  "scaleAbout k w p =
     \<lparr>lm_x = lm_x w + k * (lm_x p - lm_x w),
      lm_y = lm_y w + k * (lm_y p - lm_y w),
      lm_z = lm_z w + k * (lm_z p - lm_z w)\<rparr>"

definition scaleHand :: "real \<Rightarrow> landmark list \<Rightarrow> landmark list" where
  "scaleHand k lms = (case lms of [] \<Rightarrow> [] | wrist # _ \<Rightarrow> map (scaleAbout k wrist) lms)"

definition scaleResult :: "real \<Rightarrow> HandLandmarkerResult \<Rightarrow> HandLandmarkerResult" where
  "scaleResult k result =
     result\<lparr>landmarks := map_option (map (scaleHand k)) (landmarks result)\<rparr>"

text \<open>The gesture tag of a classification, or the error it raised.\<close>

definition resultType :: "js_error + gesture_result \<Rightarrow> js_error + GestureType" where
  "resultType r = map_sum id gtype r"

text \<open>
  Rounding decides none of the comparisons of the classifier on a hand: each of the four
  curl tests and the pinch test, computed in the arithmetic \<open>M\<close>, comes out as it does
  on the exact distances and thresholds.
\<close>

definition comparisonsAgree :: "js_math \<Rightarrow> landmark list \<Rightarrow> bool" where
  "comparisonsAgree M lms \<longleftrightarrow>
     isCurled_with M (lms ! 0) (lms ! 9) (lms ! 8) = isCurled (lms ! 0) (lms ! 9) (lms ! 8)
   \<and> isCurled_with M (lms ! 0) (lms ! 9) (lms ! 12) = isCurled (lms ! 0) (lms ! 9) (lms ! 12)
   \<and> isCurled_with M (lms ! 0) (lms ! 9) (lms ! 16) = isCurled (lms ! 0) (lms ! 9) (lms ! 16)
   \<and> isCurled_with M (lms ! 0) (lms ! 9) (lms ! 20) = isCurled (lms ! 0) (lms ! 9) (lms ! 20)
   \<and> isPinchCandidate_with M (lms ! 0) (lms ! 9) (lms ! 4) (lms ! 8)
       = isPinchCandidate (lms ! 0) (lms ! 9) (lms ! 4) (lms ! 8)"

text \<open>The same for the primary hand of a detection result, when it has 21 joints.\<close>

definition roundingNeutral :: "js_math \<Rightarrow> HandLandmarkerResult \<Rightarrow> bool" where
  "roundingNeutral M result =
     (case landmarks result of
        None \<Rightarrow> True
      | Some hands \<Rightarrow>
          (case hands of
             [] \<Rightarrow> True
           | lms # _ \<Rightarrow> 21 \<le> length lms \<longrightarrow> comparisonsAgree M lms))"

text \<open>Two concrete hands of 21 joints, lying in the image plane.\<close>

definition fistHand :: "landmark list" where
  "fistHand =
     (let z = \<lparr>lm_x = 0, lm_y = 0, lm_z = 0\<rparr>; m = \<lparr>lm_x = 0.1, lm_y = 0, lm_z = 0\<rparr>
      in [z, z, z, z, z, z, z, z, z, m, z, z, z, z, z, z, z, z, z, z, z])"

definition openHand :: "landmark list" where
  "openHand =
     (let w = \<lparr>lm_x = 0, lm_y = 0, lm_z = 0\<rparr>; m = \<lparr>lm_x = 0.1, lm_y = 0, lm_z = 0\<rparr>;
          t = \<lparr>lm_x = 0.2, lm_y = 0, lm_z = 0\<rparr>; th = \<lparr>lm_x = 0.2, lm_y = 0.2, lm_z = 0\<rparr>
      in [w, t, t, t, th, t, t, t, t, m, t, t, t, t, t, t, t, t, t, t, t])"

text \<open>
  An open hand whose coordinates are powers of two: palm size 1/8, the four finger
  tips at \<open>(1, 0)\<close>, the thumb tip at \<open>(1, 1)\<close>.
\<close>

definition dyadicHand :: "landmark list" where
  "dyadicHand =
     (let w = \<lparr>lm_x = 0, lm_y = 0, lm_z = 0\<rparr>; m = \<lparr>lm_x = 1/8, lm_y = 0, lm_z = 0\<rparr>;
          t = \<lparr>lm_x = 1, lm_y = 0, lm_z = 0\<rparr>; th = \<lparr>lm_x = 1, lm_y = 1, lm_z = 0\<rparr>
      in [w, t, t, t, th, t, t, t, t, m, t, t, t, t, t, t, t, t, t, t, t])"

text \<open>
  An open hand with the clamp inactive whose four finger tips lie exactly on the curl
  threshold: palm size 15/128, tips at 81/512 = 1.35 * 15/128 from the wrist.
\<close>

definition thresholdHand :: "landmark list" where
  "thresholdHand =
     (let w = \<lparr>lm_x = 0, lm_y = 0, lm_z = 0\<rparr>; m = \<lparr>lm_x = 15/128, lm_y = 0, lm_z = 0\<rparr>;
          t = \<lparr>lm_x = 81/512, lm_y = 0, lm_z = 0\<rparr>; th = \<lparr>lm_x = 81/512, lm_y = 1/4, lm_z = 0\<rparr>
      in [w, t, t, t, th, t, t, t, t, m, t, t, t, t, t, t, t, t, t, t, t])"

section \<open>components/MagicParticles: particle generation and the per-frame integrator\<close>

definition COUNT :: nat where
  "COUNT = 6000"

definition RIBBON_COUNT :: nat where
  "RIBBON_COUNT = 800"

text \<open>
  A \<open>THREE.Color\<close>, kept symbolic: the hex literal it was constructed from, or the
  result of \<open>multiplyScalar\<close> on a clone.
\<close>

datatype color = Hex string | MultiplyScalar color real

text \<open>
  \<open>ParticleData\<close> of \<open>types.ts\<close>. The fields \<open>id\<close> and \<open>size\<close> are named
  \<open>p_id\<close> and \<open>p_size\<close>. The optional \<open>ribbonPos\<close> is \<open>None\<close> when \<open>undefined\<close>; the
  optional flags are always set by the generator. \<open>initialPos\<close> is the vector that
  the frame loop overwrites: it holds the particle's current position.
\<close>

record ParticleData =
  p_id :: nat
  initialPos :: vec3
  treePos :: vec3
  heartPos :: vec3
  scatterPos :: vec3
  ribbonPos :: "vec3 option"
  isRibbon :: bool
  isTrunk :: bool
  color :: color
  p_size :: real
  speed :: real
  phase :: real

definition mixedPalette :: "color list" where
  "mixedPalette =
     [Hex ''#D87093'', Hex ''#FF69B4'', Hex ''#FFB6C1'', Hex ''#FFFFFF'', Hex ''#FFD700'',
      Hex ''#FF1493'']"

definition trunkColor :: color where
  "trunkColor = Hex ''#4A3728''"

definition ribbonColor :: color where
  "ribbonColor = Hex ''#F8F8FF''"

text \<open>
  \<open>Math.random()\<close> returns a number in \<open>[0, 1)\<close>. The generator is given a source
  \<open>rnd\<close> of arbitrary reals and the \<open>k\<close>-th call returns the fractional part of
  \<open>rnd k\<close>, so that every source is admissible and every sequence of draws in
  \<open>[0, 1)\<close> arises from one. The number of calls made so far is threaded through.
\<close>

definition random :: "(nat \<Rightarrow> real) \<Rightarrow> nat \<Rightarrow> real" where
  "random rnd k = frac (rnd k)"

text \<open>One iteration of the generation loop: the particle and the next call number.\<close>

definition makeParticle :: "(nat \<Rightarrow> real) \<Rightarrow> nat \<Rightarrow> nat \<Rightarrow> ParticleData \<times> nat" where
  "makeParticle rnd k i =
     (let isRibbon = i < RIBBON_COUNT;
          theta = random rnd k * pi * 2;
          height = random rnd (k + 1) * 10 - 5;
          normalizedHeight = (height + 5) / 10;
          radiusAtHeight = (1 - normalizedHeight) * 3.5;
          r = random rnd (k + 2) * radiusAtHeight;
          xTree = r * cos theta;
          zTree = r * sin theta;
          yTree = height;
          isTrunk = (\<not> isRibbon \<and> real i > real COUNT - real COUNT * 0.1);
          treePos0 =
            (if isTrunk
             then \<lparr>vx = (random rnd (k + 3) - 0.5) * 0.8,
                   vy = random rnd (k + 4) * 4 - 5,
                   vz = (random rnd (k + 5) - 0.5) * 0.8\<rparr>
             else \<lparr>vx = xTree, vy = yTree, vz = zTree\<rparr>);
          k1 = (if isTrunk then k + 6 else k + 3);
          ribbonPos =
            (if isRibbon
             then (let turns = 5;
                       h = real i / real RIBBON_COUNT * 10 - 5;
                       normH = (h + 5) / 10;
                       spiralRadius = (1 - normH) * 4.2;
                       angle = normH * pi * 2 * turns
                   in \<lparr>vx = spiralRadius * cos angle, vy = h, vz = spiralRadius * sin angle\<rparr>)
             else \<lparr>vx = 0, vy = 0, vz = 0\<rparr>);
          treePos = (if isRibbon then ribbonPos else treePos0);
          t = random rnd k1 * pi * 2;
          hScale = 0.25;
          xHeart = hScale * (16 * sin t ^ 3) * (1 + (random rnd (k1 + 1) - 0.5) * 0.2);
          yHeart = hScale * (13 * cos t - 5 * cos (2 * t) - 2 * cos (3 * t) - cos (4 * t)) + 1;
          zHeart = (random rnd (k1 + 2) - 0.5) * 2;
          heartPos = \<lparr>vx = xHeart, vy = yHeart, vz = zHeart\<rparr>;
          scatterPos =
            \<lparr>vx = (random rnd (k1 + 3) - 0.5) * 15,
             vy = (random rnd (k1 + 4) - 0.5) * 15,
             vz = (random rnd (k1 + 5) - 0.5) * 15\<rparr>;
          color =
            (if isRibbon then ribbonColor
             else if isTrunk then trunkColor
             else mixedPalette ! nat \<lfloor>random rnd (k1 + 6) * real (length mixedPalette)\<rfloor>);
          k2 = (if isRibbon \<or> isTrunk then k1 + 6 else k1 + 7)
      in (\<lparr>p_id = i,
           initialPos = scatterPos,
           treePos = treePos,
           heartPos = heartPos,
           scatterPos = scatterPos,
           ribbonPos = (if isRibbon then Some ribbonPos else None),
           isRibbon = isRibbon,
           isTrunk = isTrunk,
           color = color,
           p_size = (if isRibbon then random rnd k2 * 0.12 + 0.08 else random rnd k2 * 0.1 + 0.05),
           speed = random rnd (k2 + 1) * 0.02 + 0.01,
           phase = random rnd (k2 + 2) * pi * 2\<rparr>,
          k2 + 3))"

text \<open>The loop \<open>for (let i = 0; i < COUNT; i++)\<close>, pushing onto \<open>tempParticles\<close>.\<close>

function particlesLoop ::
  "(nat \<Rightarrow> real) \<Rightarrow> nat \<Rightarrow> nat \<Rightarrow> ParticleData list \<Rightarrow> ParticleData list" where
  "particlesLoop rnd k i tempParticles =
     (if i < COUNT
      then particlesLoop rnd (snd (makeParticle rnd k i)) (i + 1)
             (tempParticles @ [fst (makeParticle rnd k i)])
      else tempParticles)"
  by pat_completeness auto
termination
  by (relation "measure (\<lambda>(rnd, k, i, tempParticles). COUNT - i)") auto

declare particlesLoop.simps [simp del]

definition generateParticles :: "(nat \<Rightarrow> real) \<Rightarrow> ParticleData list" where
  "generateParticles rnd = particlesLoop rnd 0 0 []"

subsection \<open>The frame callback of MagicParticles\<close>

text \<open>What is written to the instanced mesh for one particle.\<close>

record mesh_instance =
  inst_position :: vec3
  inst_scale :: real
  inst_color :: color

text \<open>The ribbon flow animation: the spiral re-evaluated with a time-dependent angle.\<close>

definition ribbonFlowTarget :: "real \<Rightarrow> vec3 \<Rightarrow> vec3" where
  "ribbonFlowTarget time rp =
     (let turns = 5;
          originalH = vy rp;
          angleOffset = time * - 0.5;
          normH = (originalH + 5) / 10;
          spiralRadius = (1 - normH) * 4.2;
          angle = normH * pi * 2 * turns + angleOffset
      in \<lparr>vx = spiralRadius * cos angle, vy = originalH, vz = spiralRadius * sin angle\<rparr>)"

text \<open>The target chosen from the application state, before the hand interaction.\<close>

definition baseTarget :: "AppState \<Rightarrow> real \<Rightarrow> ParticleData \<Rightarrow> vec3" where
  "baseTarget appState time p =
     (if appState = SCATTER then scatterPos p
      else if appState = HEART then heartPos p
      else if appState = TREE \<and> isRibbon p
      then (case ribbonPos p of Some rp \<Rightarrow> ribbonFlowTarget time rp | None \<Rightarrow> treePos p)
      else treePos p)"

definition swirlOffset :: "real \<Rightarrow> ParticleData \<Rightarrow> vec3" where
  "swirlOffset time p =
     \<lparr>vx = cos (time + real (p_id p)) * 0.5, vy = sin (time + real (p_id p)) * 0.5, vz = 0\<rparr>"

text \<open>The target after the hand interaction (swirl in SCATTER).\<close>

definition frameTarget :: "AppState \<Rightarrow> vec3 option \<Rightarrow> real \<Rightarrow> ParticleData \<Rightarrow> vec3" where
  "frameTarget appState handPosition time p =
     (case handPosition of
        None \<Rightarrow> baseTarget appState time p
      | Some h \<Rightarrow>
          if appState = SCATTER \<and> distanceTo (initialPos p) h < 4
          then add3 (baseTarget appState time p) (swirlOffset time p)
          else baseTarget appState time p)"

definition sway :: "real \<Rightarrow> ParticleData \<Rightarrow> real" where
  "sway time p = sin (time * 2 + phase p) * 0.05"

text \<open>The line \<open>p.initialPos.lerp(target, 0.08)\<close>.\<close>

definition interpolate :: "vec3 \<Rightarrow> vec3 \<Rightarrow> vec3" where
  "interpolate pos target = lerp pos target 0.08"

text \<open>The same line in double arithmetic.\<close>

definition interpolate_double :: "vec3 \<Rightarrow> vec3 \<Rightarrow> vec3" where
  "interpolate_double pos target = lerp_double pos target (round_double 0.08)"

text \<open>One coordinate of that step.\<close>

definition interpolate1_double :: "real \<Rightarrow> real \<Rightarrow> real" where
  "interpolate1_double x t = lerp1_double x t (round_double 0.08)"

text \<open>
  The body of \<open>particles.forEach((p, i) => ...)\<close>: the particle with its stored
  position overwritten, and the instance written at slot \<open>i\<close>.
\<close>

definition updateParticle ::
  "AppState \<Rightarrow> vec3 option \<Rightarrow> real \<Rightarrow> nat \<Rightarrow> ParticleData \<Rightarrow> ParticleData \<times> mesh_instance" where
  "updateParticle appState handPosition time i p =
     (let target = frameTarget appState handPosition time p;
          pos = interpolate (initialPos p) target;
          scaleBase = (if isRibbon p then 1.2 else 1.0);
          scale = p_size p * scaleBase * (1 + sin (time * 5 + phase p) * 0.5);
          col = (if \<not> isRibbon p \<and> \<not> isTrunk p \<and> i mod 15 = 0
                 then (if sin (time * 3 + phase p) > 0 then color p
                       else MultiplyScalar (color p) 0.4)
                 else color p)
      in (p\<lparr>initialPos := pos\<rparr>,
          \<lparr>inst_position = pos\<lparr>vy := vy pos + sway time p\<rparr>,
           inst_scale = scale,
           inst_color = col\<rparr>))"

text \<open>
  The frame callback: nothing happens while the mesh is not mounted; otherwise every
  particle is updated in index order.
\<close>

definition particlesFrame ::
  "bool \<Rightarrow> AppState \<Rightarrow> vec3 option \<Rightarrow> real \<Rightarrow> ParticleData list
     \<Rightarrow> ParticleData list \<times> mesh_instance list" where
  "particlesFrame meshMounted appState handPosition time particles =
     (if \<not> meshMounted then (particles, [])
      else (let rs = map (\<lambda>(i, p). updateParticle appState handPosition time i p)
                       (enumerate 0 particles)
            in (map fst rs, map snd rs)))"

section \<open>components/FloatingPhotos: the grab and zoom controller\<close>

text \<open>\<open>PhotoData\<close> of \<open>types.ts\<close>; \<open>position\<close> is the photo's home position.\<close>

record PhotoData =
  ph_id :: string
  ph_url :: string
  ph_position :: vec3

text \<open>
  A child of the photo group (the \<open>Billboard\<close> of one photo): its local position,
  its scale vector, and the \<open>z\<close> rotation of its inner mesh \<open>child.children[0]\<close>
  (\<open>None\<close> when there is no inner mesh).
\<close>

record Object3D =
  obj_position :: vec3
  obj_scale :: vec3
  obj_inner_rotation_z :: "real option"

text \<open>
  What persists between frames: the children of the group (\<open>None\<close> while
  \<open>groupRef.current\<close> is null) and the ref \<open>activePhotoId\<close>.
\<close>

record photos_state =
  groupChildren :: "Object3D list option"
  activePhotoId :: "string option"

text \<open>
  What one frame reads: the props, the clock, and the world transform of the group,
  which belongs to the enclosing scene: \<open>fr_worldOf\<close> maps a child's local position to
  its world position (\<open>child.getWorldPosition\<close>) and \<open>fr_worldToLocal\<close> is
  \<open>groupRef.current.worldToLocal\<close>.
\<close>

record frame_input =
  fr_photos :: "PhotoData list"
  fr_appState :: AppState
  fr_handPosition :: "vec3 option"
  fr_isPinching :: bool
  fr_elapsedTime :: real
  fr_worldOf :: "vec3 \<Rightarrow> vec3"
  fr_worldToLocal :: "vec3 \<Rightarrow> vec3"

text \<open>The locals \<open>closestDist\<close> (\<open>None\<close> is \<open>Infinity\<close>) and \<open>closestId\<close>.\<close>

record closest =
  closestDist :: "real option"
  closestId :: "string option"

text \<open>The body of the first \<open>forEach\<close>, for the child at index \<open>idx\<close>.\<close>

definition scanChild :: "frame_input \<Rightarrow> vec3 \<Rightarrow> closest \<Rightarrow> nat \<times> Object3D \<Rightarrow> closest" where
  "scanChild inp hand acc ic =
     (case elemAt (fr_photos inp) (fst ic) of
        None \<Rightarrow> acc
      | Some photo \<Rightarrow>
          (let dist = distanceTo hand (fr_worldOf inp (obj_position (snd ic)))
           in if dist < 1.5 \<and> (case closestDist acc of None \<Rightarrow> True | Some d \<Rightarrow> dist < d)
              then \<lparr>closestDist = Some dist, closestId = Some (ph_id photo)\<rparr>
              else acc))"

definition findClosest :: "frame_input \<Rightarrow> Object3D list \<Rightarrow> closest" where
  "findClosest inp children =
     (case fr_handPosition inp of
        None \<Rightarrow> \<lparr>closestDist = None, closestId = None\<rparr>
      | Some hand \<Rightarrow>
          if fr_isPinching inp \<and> fr_appState inp = SCATTER
          then foldl (scanChild inp hand) \<lparr>closestDist = None, closestId = None\<rparr>
                 (enumerate 0 children)
          else \<lparr>closestDist = None, closestId = None\<rparr>)"

text \<open>JavaScript truthiness of a \<open>string | null\<close>: null and the empty string are falsy.\<close>

definition truthy :: "string option \<Rightarrow> bool" where
  "truthy s = (case s of None \<Rightarrow> False | Some v \<Rightarrow> v \<noteq> [])"

text \<open>The update of \<open>activePhotoId.current\<close>.\<close>

definition updateActive :: "string option \<Rightarrow> bool \<Rightarrow> string option \<Rightarrow> string option" where
  "updateActive closest_id isPinching active =
     (if truthy closest_id then closest_id
      else if \<not> isPinching then None
      else active)"

text \<open>
  The target position and target scale of the photo at index \<open>idx\<close>: in front of the
  hand and zoomed when it is the grabbed photo and a hand position exists, its home
  position with the floating offset and the idle scale otherwise.
\<close>

definition photoTarget :: "frame_input \<Rightarrow> string option \<Rightarrow> nat \<Rightarrow> PhotoData \<Rightarrow> vec3 \<times> real" where
  "photoTarget inp active idx photo =
     (let isGrabbed = (active = Some (ph_id photo));
          home = ph_position photo
      in case (if isGrabbed then fr_handPosition inp else None) of
           Some hand \<Rightarrow> (add3 (fr_worldToLocal inp hand) \<lparr>vx = 0, vy = 0, vz = 0.5\<rparr>, 4.0)
         | None \<Rightarrow>
             (home\<lparr>vy := vy home + sin (fr_elapsedTime inp + real idx) * 0.002\<rparr>, 0.35))"

text \<open>The body of the second \<open>forEach\<close>: the animation of the child at index \<open>idx\<close>.\<close>

definition animateChild :: "frame_input \<Rightarrow> string option \<Rightarrow> nat \<times> Object3D \<Rightarrow> Object3D" where
  "animateChild inp active ic =
     (case elemAt (fr_photos inp) (fst ic) of
        None \<Rightarrow> snd ic
      | Some photo \<Rightarrow>
          (let isGrabbed = (active = Some (ph_id photo));
               targetPos = fst (photoTarget inp active (fst ic) photo);
               targetScale = snd (photoTarget inp active (fst ic) photo);
               currentScale = vx (obj_scale (snd ic));
               newScale = MathUtils_lerp currentScale targetScale 0.1
           in \<lparr>obj_position = lerp (obj_position (snd ic)) targetPos 0.1,
               obj_scale = \<lparr>vx = newScale, vy = newScale, vz = newScale\<rparr>,
               obj_inner_rotation_z =
                 map_option
                   (\<lambda>_. if \<not> isGrabbed
                        then sin (fr_elapsedTime inp * 0.5 + real (fst ic)) * 0.1
                        else 0)
                   (obj_inner_rotation_z (snd ic))\<rparr>))"

text \<open>The frame callback of \<open>FloatingPhotos\<close>.\<close>

definition floatingPhotosFrame :: "frame_input \<Rightarrow> photos_state \<Rightarrow> photos_state" where
  "floatingPhotosFrame inp st =
     (case groupChildren st of
        None \<Rightarrow> st
      | Some children \<Rightarrow>
          (let active = updateActive (closestId (findClosest inp children)) (fr_isPinching inp)
                          (activePhotoId st)
           in \<lparr>groupChildren = Some (map (animateChild inp active) (enumerate 0 children)),
               activePhotoId = active\<rparr>))"

text \<open>A run of frames, oldest first.\<close>

definition runFrames :: "frame_input list \<Rightarrow> photos_state \<Rightarrow> photos_state" where
  "runFrames inps st = foldl (\<lambda>s inp. floatingPhotosFrame inp s) st inps"

section \<open>Auxiliary definitions for stating the properties\<close>

subsection \<open>Runs of the grab controller\<close>

text \<open>
  In the frame \<open>inp\<close> entered in state \<open>st\<close>, every child that has a photo and lies
  less than 1.5 units from the hand shows the photo \<open>a\<close>: no other photo is a grab
  candidate. (Vacuous without a mounted group, without a hand, and outside SCATTER,
  where no child is scanned.)
\<close>

definition noOtherCandidate :: "string \<Rightarrow> frame_input \<Rightarrow> photos_state \<Rightarrow> bool" where
  "noOtherCandidate a inp st =
     (case groupChildren st of
        None \<Rightarrow> True
      | Some children \<Rightarrow>
          (case fr_handPosition inp of
             None \<Rightarrow> True
           | Some hand \<Rightarrow>
               fr_appState inp \<noteq> SCATTER \<or>
               list_all
                 (\<lambda>ic. case elemAt (fr_photos inp) (fst ic) of
                         None \<Rightarrow> True
                       | Some photo \<Rightarrow>
                           distanceTo hand (fr_worldOf inp (obj_position (snd ic))) < 1.5
                             \<longrightarrow> ph_id photo = a)
                 (enumerate 0 children)))"

text \<open>
  Along the run \<open>inps\<close> started in \<open>st\<close>, the pinch continues in every frame and no
  photo other than \<open>a\<close> is a grab candidate in any frame.
\<close>

fun heldThrough :: "string \<Rightarrow> frame_input list \<Rightarrow> photos_state \<Rightarrow> bool" where
  "heldThrough a [] st = True"
| "heldThrough a (inp # inps) st =
     (fr_isPinching inp \<and> noOtherCandidate a inp st
      \<and> heldThrough a inps (floatingPhotosFrame inp st))"

subsection \<open>A scene with two photos\<close>

text \<open>
  Photo \<open>b\<close> (index 0) has its home at \<open>(5, 0, 0)\<close>, photo \<open>a\<close> (index 1) at the origin;
  each billboard starts at its home with scale 1. The group's world transform is the
  identity. \<open>pinchAt hand\<close> is a pinching frame in SCATTER state at time 0 with the
  hand at \<open>hand\<close>; \<open>afterGrab\<close> is the state after a first such frame with the hand at
  the origin.
\<close>

definition photoA :: PhotoData where
  "photoA = \<lparr>ph_id = ''a'', ph_url = ''a.png'', ph_position = \<lparr>vx = 0, vy = 0, vz = 0\<rparr>\<rparr>"

definition photoB :: PhotoData where
  "photoB = \<lparr>ph_id = ''b'', ph_url = ''b.png'', ph_position = \<lparr>vx = 5, vy = 0, vz = 0\<rparr>\<rparr>"

definition billboardAt :: "vec3 \<Rightarrow> Object3D" where
  "billboardAt v =
     \<lparr>obj_position = v, obj_scale = \<lparr>vx = 1, vy = 1, vz = 1\<rparr>, obj_inner_rotation_z = Some 0\<rparr>"

definition twoPhotosStart :: photos_state where
  "twoPhotosStart =
     \<lparr>groupChildren = Some [billboardAt (ph_position photoB), billboardAt (ph_position photoA)],
      activePhotoId = None\<rparr>"

definition pinchAt :: "vec3 \<Rightarrow> frame_input" where
  "pinchAt hand =
     \<lparr>fr_photos = [photoB, photoA],
      fr_appState = SCATTER,
      fr_handPosition = Some hand,
      fr_isPinching = True,
      fr_elapsedTime = 0,
      fr_worldOf = (\<lambda>v. v),
      fr_worldToLocal = (\<lambda>v. v)\<rparr>"

definition afterGrab :: photos_state where
  "afterGrab = floatingPhotosFrame (pinchAt \<lparr>vx = 0, vy = 0, vz = 0\<rparr>) twoPhotosStart"

subsection \<open>Vector algebra and a sample particle\<close>

definition sub3 :: "vec3 \<Rightarrow> vec3 \<Rightarrow> vec3" where
  "sub3 a v = \<lparr>vx = vx a - vx v, vy = vy a - vy v, vz = vz a - vz v\<rparr>"

definition scale3 :: "real \<Rightarrow> vec3 \<Rightarrow> vec3" where
  "scale3 c v = \<lparr>vx = c * vx v, vy = c * vy v, vz = c * vz v\<rparr>"

text \<open>
  A canopy particle as the generator leaves it (\<open>initialPos\<close> a copy of
  \<open>scatterPos\<close>), 4.1 units from the origin, with its tree position at the origin.
\<close>

definition driftParticle :: ParticleData where
  "driftParticle =
     \<lparr>p_id = 1000,
      initialPos = \<lparr>vx = 4.1, vy = 0, vz = 0\<rparr>,
      treePos = \<lparr>vx = 0, vy = 0, vz = 0\<rparr>,
      heartPos = \<lparr>vx = 0, vy = 1, vz = 0\<rparr>,
      scatterPos = \<lparr>vx = 4.1, vy = 0, vz = 0\<rparr>,
      ribbonPos = None,
      isRibbon = False,
      isTrunk = False,
      color = Hex ''#FFFFFF'',
      p_size = 0.1,
      speed = 0.01,
      phase = pi / 2\<rparr>"

section \<open>Properties of double rounding\<close>

subsection \<open>Rounding to the nearest integer, ties to even\<close>

lemma rte_of_int [simp]: "roundTiesToEven (of_int n) = n"
  by (simp add: roundTiesToEven_def)

lemma rte_upper: "real_of_int (roundTiesToEven z) \<le> z + 1/2"
  unfolding roundTiesToEven_def frac_def by (auto simp add: not_less; linarith)

lemma rte_lower: "z - 1/2 \<le> real_of_int (roundTiesToEven z)"
  unfolding roundTiesToEven_def frac_def by (auto simp add: not_less; linarith)

lemma rte_mono:
  assumes "z \<le> w"
  shows "roundTiesToEven z \<le> roundTiesToEven w"
proof (cases "\<lfloor>z\<rfloor> = \<lfloor>w\<rfloor>")
  case True
  then have "frac z \<le> frac w" using assms by (simp add: frac_def)
  then show ?thesis using True unfolding roundTiesToEven_def by auto
next
  case False
  then have "\<lfloor>z\<rfloor> < \<lfloor>w\<rfloor>" using assms floor_mono [OF assms] by linarith
  moreover have "roundTiesToEven z \<le> \<lfloor>z\<rfloor> + 1" unfolding roundTiesToEven_def by auto
  moreover have "\<lfloor>w\<rfloor> \<le> roundTiesToEven w" unfolding roundTiesToEven_def by auto
  ultimately show ?thesis by linarith
qed

lemma rte_neg: "roundTiesToEven (- z) = - roundTiesToEven z"
proof (cases "z \<in> \<int>")
  case True
  then obtain n where "z = of_int n" by (auto elim: Ints_cases)
  then show ?thesis by (simp flip: of_int_minus)
next
  case False
  then have f: "\<lfloor>- z\<rfloor> = - \<lfloor>z\<rfloor> - 1"
  proof -
    have "real_of_int \<lfloor>z\<rfloor> < z" using False
      by (metis Ints_of_int le_less of_int_floor_le)
    then show ?thesis by (simp add: floor_eq_iff; linarith)
  qed
  then have fr: "frac (- z) = 1 - frac z" by (simp add: frac_def)
  show ?thesis unfolding roundTiesToEven_def fr f by auto
qed

lemma rte_zero [simp]: "roundTiesToEven 0 = 0"
  by (simp add: roundTiesToEven_def)

lemma rte_nonneg: "0 \<le> z \<Longrightarrow> 0 \<le> roundTiesToEven z"
  using rte_mono [of 0 z] by simp

lemma rte_le_double:
  assumes "0 \<le> z"
  shows "real_of_int (roundTiesToEven z) \<le> 2 * z"
proof (cases "z \<le> 1/2")
  case True
  then have "\<lfloor>z\<rfloor> = 0" using assms by (simp add: floor_eq_iff)
  then have "frac z = z" by (simp add: frac_def)
  then have "roundTiesToEven z = 0" using True \<open>\<lfloor>z\<rfloor> = 0\<close> by (simp add: roundTiesToEven_def)
  then show ?thesis using assms by simp
next
  case False
  then show ?thesis using rte_upper [of z] by linarith
qed

subsection \<open>Sign, bounds and monotonicity of \<open>round_double\<close>\<close>

lemma ulp_pos: "0 < ulp x"
  by (simp add: ulp_def)

lemma ulp_neg: "ulp (- x) = ulp x"
  by (simp add: ulp_def exponentOf_def)

lemma rd_zero [simp]: "round_double 0 = 0"
  by (simp add: round_double_def)

lemma rd_neg: "round_double (- x) = - round_double x"
  by (simp add: round_double_def ulp_neg rte_neg)

lemma rd_nonneg: "0 \<le> x \<Longrightarrow> 0 \<le> round_double x"
  using rte_nonneg [of "x / ulp x"] ulp_pos [of x]
  by (simp add: round_double_def)

lemma rd_le_double:
  assumes "0 \<le> x"
  shows "round_double x \<le> 2 * x"
proof (cases "x = 0")
  case True
  then show ?thesis by simp
next
  case False
  have "real_of_int (roundTiesToEven (x / ulp x)) \<le> 2 * (x / ulp x)"
    using assms ulp_pos [of x] by (intro rte_le_double) simp
  then have "ulp x * real_of_int (roundTiesToEven (x / ulp x)) \<le> ulp x * (2 * (x / ulp x))"
    using ulp_pos [of x] by (intro mult_left_mono) simp_all
  then show ?thesis using False ulp_pos [of x] by (simp add: round_double_def)
qed

lemma exponentOf_upper:
  assumes "0 < x"
  shows "x < 2 powr (real_of_int (exponentOf x) + 1)"
proof -
  have "x < 2 powr (real_of_int \<lfloor>log 2 x\<rfloor> + 1)"
    using assms floor_log_eq_powr_iff [of x 2 "\<lfloor>log 2 x\<rfloor>"] by simp
  also have "\<dots> \<le> 2 powr (real_of_int (exponentOf x) + 1)"
    using assms by (simp add: exponentOf_def)
  finally show ?thesis .
qed

lemma exponentOf_lower:
  assumes "0 < x" "- 1022 \<le> \<lfloor>log 2 x\<rfloor>"
  shows "2 powr real_of_int (exponentOf x) \<le> x"
proof -
  have "exponentOf x = \<lfloor>log 2 x\<rfloor>" using assms by (simp add: exponentOf_def)
  then show ?thesis
    using assms floor_log_eq_powr_iff [of x 2 "\<lfloor>log 2 x\<rfloor>"] by simp
qed

lemma exponentOf_mono:
  assumes "0 < x" "x \<le> y"
  shows "exponentOf x \<le> exponentOf y"
proof -
  have "log 2 x \<le> log 2 y" using assms by simp
  then have "\<lfloor>log 2 x\<rfloor> \<le> \<lfloor>log 2 y\<rfloor>" by (rule floor_mono)
  then show ?thesis using assms by (simp add: exponentOf_def)
qed

lemma rd_upper:
  assumes "0 < x"
  shows "round_double x \<le> 2 powr (real_of_int (exponentOf x) + 1)"
proof -
  have u: "2 powr (real_of_int (exponentOf x) + 1) = ulp x * 2 ^ 53"
  proof -
    have "ulp x * 2 powr 53 = 2 powr (real_of_int (exponentOf x) - 52 + 53)"
      unfolding ulp_def by (rule powr_add [symmetric])
    also have "\<dots> = 2 powr (real_of_int (exponentOf x) + 1)" by (simp add: add.commute)
    finally have "2 powr (real_of_int (exponentOf x) + 1) = ulp x * 2 powr 53" by simp
    also have "(2::real) powr 53 = 2 ^ 53" by (rule powr_numeral) simp
    finally show ?thesis .
  qed
  have "x / ulp x \<le> real_of_int (2 ^ 53)"
    using exponentOf_upper [OF assms] ulp_pos [of x] by (simp add: u pos_divide_le_eq mult.commute)
  then have "roundTiesToEven (x / ulp x) \<le> roundTiesToEven (real_of_int (2 ^ 53))"
    by (rule rte_mono)
  then have "real_of_int (roundTiesToEven (x / ulp x)) \<le> 2 ^ 53"
    unfolding rte_of_int by simp
  then have "ulp x * real_of_int (roundTiesToEven (x / ulp x)) \<le> ulp x * 2 ^ 53"
    using ulp_pos [of x] by (intro mult_left_mono) simp_all
  then show ?thesis using assms by (simp add: round_double_def u)
qed

lemma rd_lower:
  assumes "0 < x" "2 powr real_of_int (exponentOf x) \<le> x"
  shows "2 powr real_of_int (exponentOf x) \<le> round_double x"
proof -
  have u: "2 powr real_of_int (exponentOf x) = ulp x * 2 ^ 52"
  proof -
    have "ulp x * 2 powr 52 = 2 powr (real_of_int (exponentOf x) - 52 + 52)"
      unfolding ulp_def by (rule powr_add [symmetric])
    also have "\<dots> = 2 powr real_of_int (exponentOf x)" by simp
    finally have "2 powr real_of_int (exponentOf x) = ulp x * 2 powr 52" by simp
    also have "(2::real) powr 52 = 2 ^ 52" by (rule powr_numeral) simp
    finally show ?thesis .
  qed
  have "real_of_int (2 ^ 52) \<le> x / ulp x"
    using assms(2) ulp_pos [of x] by (simp add: u pos_le_divide_eq mult.commute)
  then have "roundTiesToEven (real_of_int (2 ^ 52)) \<le> roundTiesToEven (x / ulp x)"
    by (rule rte_mono)
  then have "2 ^ 52 \<le> real_of_int (roundTiesToEven (x / ulp x))"
    unfolding rte_of_int by simp
  then have "ulp x * 2 ^ 52 \<le> ulp x * real_of_int (roundTiesToEven (x / ulp x))"
    using ulp_pos [of x] by (intro mult_left_mono) simp_all
  then show ?thesis using assms by (simp add: round_double_def u)
qed

lemma rd_mono_pos:
  assumes "0 < x" "x \<le> y"
  shows "round_double x \<le> round_double y"
proof (cases "exponentOf x = exponentOf y")
  case True
  then have u: "ulp x = ulp y" by (simp add: ulp_def)
  have "x / ulp y \<le> y / ulp y" using assms ulp_pos [of y] by (simp add: divide_right_mono)
  then have "roundTiesToEven (x / ulp y) \<le> roundTiesToEven (y / ulp y)" by (rule rte_mono)
  then have "ulp y * real_of_int (roundTiesToEven (x / ulp y))
             \<le> ulp y * real_of_int (roundTiesToEven (y / ulp y))"
    using ulp_pos [of y] by (intro mult_left_mono) simp_all
  then show ?thesis using assms by (simp add: round_double_def u)
next
  case False
  with exponentOf_mono [OF assms] have lt: "exponentOf x < exponentOf y" by simp
  have y: "0 < y" using assms by simp
  have "- 1022 \<le> exponentOf x" by (simp add: exponentOf_def)
  with lt have "- 1022 < exponentOf y" by simp
  then have "exponentOf y = \<lfloor>log 2 \<bar>y\<bar>\<rfloor>" unfolding exponentOf_def max_def by (simp split: if_splits)
  with \<open>- 1022 < exponentOf y\<close> y have "- 1022 \<le> \<lfloor>log 2 y\<rfloor>" by simp
  from exponentOf_lower [OF y this] have "2 powr real_of_int (exponentOf y) \<le> round_double y"
    using y by (intro rd_lower)
  moreover have "round_double x \<le> 2 powr (real_of_int (exponentOf x) + 1)"
    using assms(1) by (rule rd_upper)
  moreover have "2 powr (real_of_int (exponentOf x) + 1) \<le> 2 powr real_of_int (exponentOf y)"
    using lt by simp
  ultimately show ?thesis by linarith
qed

lemma rd_mono:
  assumes "x \<le> y"
  shows "round_double x \<le> round_double y"
proof -
  consider "0 < x" | "x \<le> 0" "0 \<le> y" | "y < 0" by linarith
  then show ?thesis
  proof cases
    case 1
    then show ?thesis using assms by (rule rd_mono_pos)
  next
    case 2
    have "round_double x \<le> 0" using rd_nonneg [of "- x"] 2(1) by (simp add: rd_neg)
    moreover have "0 \<le> round_double y" using 2(2) by (rule rd_nonneg)
    ultimately show ?thesis by simp
  next
    case 3
    then have "round_double (- y) \<le> round_double (- x)" using assms by (intro rd_mono_pos) simp_all
    then show ?thesis by (simp add: rd_neg)
  qed
qed

subsection \<open>Numbers that \<open>round_double\<close> leaves unchanged\<close>

lemma exponentOf_eq:
  assumes "0 < x" "- 1022 \<le> e" "2 powr real_of_int e \<le> x" "x < 2 powr (real_of_int e + 1)"
  shows "exponentOf x = e"
proof -
  have "\<lfloor>log 2 x\<rfloor> = e"
    using assms floor_log_eq_powr_iff [of x 2 e] by simp
  then show ?thesis using assms by (simp add: exponentOf_def)
qed

lemma exponentOf_subnormal:
  assumes "0 < x" "x < 2 powr (- 1022)"
  shows "exponentOf x = - 1022"
proof -
  have "x < 2 powr (real_of_int \<lfloor>log 2 x\<rfloor>  + 1) \<and> 2 powr real_of_int \<lfloor>log 2 x\<rfloor> \<le> x"
    using assms floor_log_eq_powr_iff [of x 2 "\<lfloor>log 2 x\<rfloor>"] by simp
  then have "2 powr real_of_int \<lfloor>log 2 x\<rfloor> < 2 powr (- 1022)" using assms by linarith
  then have "real_of_int \<lfloor>log 2 x\<rfloor> < - 1022" by simp
  then have "\<lfloor>log 2 x\<rfloor> < - 1022" by linarith
  then show ?thesis using assms by (simp add: exponentOf_def)
qed

lemma rd_on_grid:
  assumes "x \<noteq> 0" "x = ulp x * real_of_int m"
  shows "round_double x = x"
proof -
  have "x / ulp x = real_of_int m" using assms(2) ulp_pos [of x] by (simp add: field_simps)
  then show ?thesis using assms by (simp add: round_double_def)
qed

lemma rd_pow2:
  assumes "- 1022 \<le> n"
  shows "round_double (2 powr real_of_int n) = 2 powr real_of_int n"
proof -
  let ?x = "2 powr real_of_int n"
  have e: "exponentOf ?x = n"
    using assms by (intro exponentOf_eq) simp_all
  have "ulp ?x * 2 powr 52 = 2 powr (real_of_int n - 52 + 52)"
    unfolding ulp_def e by (rule powr_add [symmetric])
  then have "?x = ulp ?x * 2 powr 52" by simp
  also have "(2::real) powr 52 = real_of_int (2 ^ 52)" by simp
  finally have "?x = ulp ?x * real_of_int (2 ^ 52)" .
  then show ?thesis by (intro rd_on_grid [where m = "2 ^ 52"]) simp_all
qed

lemma rd_idem_pos:
  assumes "0 < x"
  shows "round_double (round_double x) = round_double x"
proof -
  let ?e = "exponentOf x"
  let ?m = "roundTiesToEven (x / ulp x)"
  let ?r = "round_double x"
  have r: "?r = ulp x * real_of_int ?m" using assms by (simp add: round_double_def)
  have up: "?r \<le> 2 powr (real_of_int ?e + 1)" using assms by (rule rd_upper)
  have nn: "0 \<le> ?r" using assms by (intro rd_nonneg) simp
  have e_ge: "- 1022 \<le> ?e" by (simp add: exponentOf_def)
  consider "?r = 0" | "?r = 2 powr (real_of_int ?e + 1)" | "0 < ?r" "?r < 2 powr (real_of_int ?e + 1)"
    using up nn by linarith
  then show ?thesis
  proof cases
    case 1
    then show ?thesis by simp
  next
    case 2
    have "round_double (2 powr real_of_int (?e + 1)) = 2 powr real_of_int (?e + 1)"
      using e_ge by (intro rd_pow2) simp
    then show ?thesis using 2 by (simp add: add.commute)
  next
    case 3
    have "exponentOf ?r = ?e"
    proof (cases "2 powr real_of_int ?e \<le> ?r")
      case True
      with 3 e_ge show ?thesis by (intro exponentOf_eq) simp_all
    next
      case False
      have "?e = - 1022"
      proof (rule ccontr)
        assume "?e \<noteq> - 1022"
        with e_ge have "- 1022 < ?e" by simp
        then have "?e = \<lfloor>log 2 \<bar>x\<bar>\<rfloor>" unfolding exponentOf_def max_def by (simp split: if_splits)
        with \<open>- 1022 < ?e\<close> assms have "- 1022 \<le> \<lfloor>log 2 x\<rfloor>" by simp
        from exponentOf_lower [OF assms this] have "2 powr real_of_int ?e \<le> ?r"
          using assms by (intro rd_lower)
        with False show False by simp
      qed
      with False have "?r < 2 powr (- 1022)" by simp
      from exponentOf_subnormal [OF 3(1) this] \<open>?e = - 1022\<close> show ?thesis by simp
    qed
    then have "ulp ?r = ulp x" by (simp add: ulp_def)
    with r have "?r = ulp ?r * real_of_int ?m" by simp
    with 3(1) show ?thesis by (intro rd_on_grid) simp_all
  qed
qed

lemma rd_idem: "round_double (round_double x) = round_double x"
proof -
  consider "0 < x" | "x = 0" | "x < 0" by linarith
  then show ?thesis
  proof cases
    case 1
    then show ?thesis by (rule rd_idem_pos)
  next
    case 2
    then show ?thesis by simp
  next
    case 3
    then have "round_double (round_double (- x)) = round_double (- x)" by (intro rd_idem_pos) simp
    then show ?thesis by (simp add: rd_neg)
  qed
qed

lemma rd_stall_at_one:
  assumes "1 \<le> z" "z < 1 + 2 powr (- 53)"
  shows "round_double z = 1"
proof -
  have p: "(2::real) powr (- 53) = 1 / 2 ^ 53" "(2::real) powr (- 52) = 1 / 2 ^ 52"
    by (simp_all add: powr_minus_divide)
  have z2: "z < 2" using assms p by simp
  have e: "exponentOf z = 0" using assms z2 by (intro exponentOf_eq) simp_all
  have u: "ulp z = 1 / 2 ^ 52" by (simp add: ulp_def e p)
  define w where "w = z / ulp z"
  have "w = z * 2 ^ 52" by (simp add: w_def u)
  then have b: "real_of_int (2 ^ 52) \<le> w" "w < real_of_int (2 ^ 52) + 1/2"
    using assms p by simp_all
  then have fl: "\<lfloor>w\<rfloor> = 2 ^ 52"
    unfolding floor_eq_iff by linarith
  have fr: "frac w < 1/2"
    using b unfolding frac_def fl by linarith
  from fl fr have "roundTiesToEven w = 2 ^ 52" by (simp add: roundTiesToEven_def)
  then have "roundTiesToEven (z / ulp z) = 2 ^ 52" by (simp add: w_def)
  then show ?thesis using assms by (simp add: round_double_def u)
qed

lemma rd_one [simp]: "round_double 1 = 1"
  using rd_pow2 [of 0] by simp

lemma rd_inv_pow2:
  assumes "n \<le> 1022"
  shows "round_double (1 / 2 ^ n) = 1 / 2 ^ n"
proof -
  have eq: "(2::real) powr real_of_int (- int n) = 1 / 2 ^ n"
    by (simp add: powr_minus_divide powr_realpow)
  have "round_double (2 powr real_of_int (- int n)) = 2 powr real_of_int (- int n)"
    using assms by (intro rd_pow2) simp
  then show ?thesis unfolding eq .
qed

lemma threshold_bound:
  assumes "0 \<le> s" "0 \<le> c"
  shows "round_double (s * round_double c) \<le> 4 * (s * c)"
proof -
  have c: "0 \<le> round_double c" "round_double c \<le> 2 * c"
    using assms by (simp_all add: rd_nonneg rd_le_double)
  have "round_double (s * round_double c) \<le> 2 * (s * round_double c)"
    using assms c by (intro rd_le_double) simp
  also have "\<dots> \<le> 2 * (s * (2 * c))"
    using assms c by (intro mult_left_mono) simp_all
  finally show ?thesis by simp
qed


subsection \<open>Evaluating \<open>round_double\<close>\<close>

lemma rte_down:
  assumes "real_of_int f \<le> z" "z < real_of_int f + 1/2"
  shows "roundTiesToEven z = f"
proof -
  have fl: "\<lfloor>z\<rfloor> = f" unfolding floor_eq_iff using assms by linarith
  have "frac z < 1/2" unfolding frac_def fl using assms by linarith
  then show ?thesis by (simp add: roundTiesToEven_def fl)
qed

lemma rte_up:
  assumes "real_of_int f + 1/2 < z" "z < real_of_int f + 1"
  shows "roundTiesToEven z = f + 1"
proof -
  have fl: "\<lfloor>z\<rfloor> = f" unfolding floor_eq_iff using assms by linarith
  have "1/2 < frac z" unfolding frac_def fl using assms by linarith
  then show ?thesis by (simp add: roundTiesToEven_def fl)
qed

lemma rd_eval:
  assumes "0 < x" "- 1022 \<le> e" "2 powr real_of_int e \<le> x" "x < 2 powr (real_of_int e + 1)"
    and "roundTiesToEven (x / 2 powr (real_of_int e - 52)) = m"
  shows "round_double x = 2 powr (real_of_int e - 52) * real_of_int m"
proof -
  have "exponentOf x = e" using assms(1-4) by (rule exponentOf_eq)
  then have "ulp x = 2 powr (real_of_int e - 52)" by (simp add: ulp_def)
  then show ?thesis using assms(1,5) by (simp add: round_double_def)
qed

lemma p52: "(2::real) powr (- 52) = 1 / 2 ^ 52" by (simp add: powr_minus_divide)

lemma lit135: "round_double 1.35 = 6079859496950170 / 2 ^ 52"
proof -
  have "roundTiesToEven (1.35 / 2 powr (real_of_int 0 - 52)) = 6079859496950169 + 1"
    by (rule rte_up) (simp_all add: p52)
  from rd_eval [where e = 0, OF _ _ _ _ this] show ?thesis by (simp add: p52)
qed

lemma rd_representable:
  assumes "0 < m" "m < 2 ^ 53" "- 1074 \<le> e"
  shows "round_double (real m * 2 powr real_of_int e) = real m * 2 powr real_of_int e"
proof -
  let ?x = "real m * 2 powr real_of_int e"
  have pos: "0 < ?x" using assms(1) by simp
  have "real m < 2 ^ 53" using assms(2) by (metis of_nat_less_iff of_nat_numeral of_nat_power)
  then have "?x < 2 ^ 53 * 2 powr real_of_int e" by simp
  also have "\<dots> = 2 powr (real_of_int (e + 52) + 1)"
  proof -
    have "2 powr (real_of_int e + 53) = 2 powr real_of_int e * 2 powr 53" by (rule powr_add)
    then show ?thesis by (simp add: mult.commute add.commute)
  qed
  finally have lt: "?x < 2 powr (real_of_int (e + 52) + 1)" .
  have "\<lfloor>log 2 ?x\<rfloor> \<le> e + 52"
  proof -
    have "log 2 ?x < real_of_int (e + 52) + 1"
      using lt pos by (metis log_less_cancel_iff log_powr_cancel one_less_numeral_iff
          powr_gt_zero semiring_norm(76) zero_less_numeral less_numeral_extra(4) less_irrefl)
    then have "\<lfloor>log 2 ?x\<rfloor> < e + 52 + 1" by linarith
    then show ?thesis by simp
  qed
  then have E: "exponentOf ?x \<le> e + 52" using assms(3) pos by (simp add: exponentOf_def)
  define k where "k = nat (e + 52 - exponentOf ?x)"
  have k: "real_of_int e = real_of_int (exponentOf ?x) - 52 + real k"
    using E by (simp add: k_def)
  have "2 powr real_of_int e = ulp ?x * 2 powr real k"
    unfolding ulp_def powr_add [symmetric] using k by simp
  also have "2 powr real k = 2 ^ k" by (simp add: powr_realpow)
  finally have "?x = ulp ?x * real_of_int (int m * 2 ^ k)" by simp
  with pos assms(1) show ?thesis by (intro rd_on_grid [where m = "int m * 2 ^ k"]) simp_all
qed

lemma rd_frac:
  assumes "0 < m" "m < 2 ^ 53" "n \<le> 1074"
  shows "round_double (real m / 2 ^ n) = real m / 2 ^ n"
proof -
  have eq: "(2::real) powr real_of_int (- int n) = 1 / 2 ^ n"
    by (simp add: powr_minus_divide powr_realpow)
  have "round_double (real m * 2 powr real_of_int (- int n)) = real m * 2 powr real_of_int (- int n)"
    using assms by (intro rd_representable) simp_all
  then show ?thesis unfolding eq by simp
qed

lemma lit065: "round_double 0.65 = 5854679515581645 / 2 ^ 53"
proof -
  have p: "(2::real) powr (- 53) = 1 / 2 ^ 53" by (simp add: powr_minus_divide)
  have "roundTiesToEven (0.65 / 2 powr (real_of_int (- 1) - 52)) = 5854679515581644 + 1"
    by (rule rte_up) (simp_all add: p)
  from rd_eval [where e = "- 1", OF _ _ _ _ this] show ?thesis by (simp add: p)
qed


section \<open>Properties of the gesture classifier\<close>

lemma classifyHand_21:
  "21 \<le> length lms \<Longrightarrow>
   classifyHand lms =
     Inr (decide (lms ! 4) (lms ! 8) (lms ! 12) (lms ! 16) (lms ! 20) (lms ! 9) (lms ! 0))"
  by (auto simp add: classifyHand_def elemAt_def)

lemma classifyHand_short: "length lms < 21 \<Longrightarrow> classifyHand lms = Inl TypeError"
  by (simp add: classifyHand_def elemAt_def split: option.splits)

lemma dist2d_same_y: "lm_y p = lm_y q \<Longrightarrow> dist2d p q = \<bar>lm_x p - lm_x q\<bar>"
  by (simp add: dist2d_def)

lemma dist2d_same_x: "lm_x p = lm_x q \<Longrightarrow> dist2d p q = \<bar>lm_y p - lm_y q\<bar>"
  by (simp add: dist2d_def)

text \<open>
  Claim C1. A hand of 21 joints whose index, middle, ring and pinky tips are all curled
  (planar distance to the wrist below 1.35 times the clamped palm size) and whose
  thumb tip is closer to the index tip than 0.65 times the clamped palm size is
  classified CLOSED_FIST with the wrist as anchor and pinch metric 1, not PINCH: the
  fist test comes first.
\<close>

theorem fist_before_pinch:
  assumes "length lms = 21"
    and "\<forall>tip \<in> set [lms ! 8, lms ! 12, lms ! 16, lms ! 20].
           dist2d tip (lms ! 0) < 1.35 * safeScale (lms ! 0) (lms ! 9)"
    and "dist2d (lms ! 4) (lms ! 8) < 0.65 * safeScale (lms ! 0) (lms ! 9)"
  shows "classifyGesture \<lparr>landmarks = Some (lms # others)\<rparr> =
           Inr \<lparr>gtype = CLOSED_FIST,
                handCenter = Some \<lparr>pt_x = lm_x (lms ! 0), pt_y = lm_y (lms ! 0)\<rparr>,
                pinchDistance = 1\<rparr>"
  using assms
  by (simp add: classifyGesture_def classifyHand_21 decide_def curledCount_def isCurled_def
        mult.commute)

theorem fist_before_pinch_witness:
  "length fistHand = 21 \<and>
   dist2d (fistHand ! 4) (fistHand ! 8) < 0.65 * safeScale (fistHand ! 0) (fistHand ! 9) \<and>
   classifyGesture \<lparr>landmarks = Some [fistHand]\<rparr> =
     Inr \<lparr>gtype = CLOSED_FIST, handCenter = Some \<lparr>pt_x = 0, pt_y = 0\<rparr>, pinchDistance = 1\<rparr>"
  using fist_before_pinch [of fistHand "[]"]
  by (simp add: Let_def fistHand_def safeScale_def palmSize_def dist2d_same_y)

text \<open>
  Claim C2. For a detection result with zero hands, \<open>landmarks\<close> absent or empty,
  \<open>classifyGesture\<close> returns normally, with gesture NONE and a null anchor, but with
  pinch metric 0 where the claim, and every other return without a pinch, has 1.
\<close>

theorem no_hands_pinch_metric_zero:
  "classifyGesture \<lparr>landmarks = None\<rparr>
     = Inr \<lparr>gtype = NONE, handCenter = None, pinchDistance = 0\<rparr> \<and>
   classifyGesture \<lparr>landmarks = Some []\<rparr>
     = Inr \<lparr>gtype = NONE, handCenter = None, pinchDistance = 0\<rparr> \<and>
   classifyGesture \<lparr>landmarks = Some []\<rparr>
     \<noteq> Inr \<lparr>gtype = NONE, handCenter = None, pinchDistance = 1\<rparr>"
  by (simp add: classifyGesture_def)

subsection \<open>Scaling about the wrist\<close>

lemma dist2d_scale:
  assumes "0 \<le> k"
  shows "dist2d (scaleAbout k w p) (scaleAbout k w q) = k * dist2d p q"
proof -
  have "(lm_x (scaleAbout k w p) - lm_x (scaleAbout k w q))\<^sup>2
          + (lm_y (scaleAbout k w p) - lm_y (scaleAbout k w q))\<^sup>2
        = k\<^sup>2 * ((lm_x p - lm_x q)\<^sup>2 + (lm_y p - lm_y q)\<^sup>2)"
    by (simp add: scaleAbout_def power2_eq_square algebra_simps)
  then show ?thesis using assms
    by (simp add: dist2d_def real_sqrt_mult)
qed

lemma length_scaleHand: "length (scaleHand k lms) = length lms"
  by (cases lms) (simp_all add: scaleHand_def)

lemma nth_scaleHand:
  assumes "i < length lms"
  shows "scaleHand k lms ! i = scaleAbout k (lms ! 0) (lms ! i)"
proof (cases lms)
  case Nil
  with assms show ?thesis by simp
next
  case (Cons a list)
  from assms have "map (scaleAbout k a) lms ! i = scaleAbout k a (lms ! i)"
    by (rule nth_map)
  then show ?thesis using Cons by (simp add: scaleHand_def)
qed

lemma nth_scaleHand_0:
  "lms \<noteq> [] \<Longrightarrow> scaleHand k lms ! 0 = scaleAbout k (lms ! 0) (lms ! 0)"
  by (cases lms) (simp_all add: scaleHand_def)

lemma safeScale_scale:
  assumes "0 < k" "0.01 \<le> palmSize w m" "0.01 \<le> k * palmSize w m"
  shows "safeScale (scaleAbout k w w) (scaleAbout k w m) = k * safeScale w m"
  using assms by (simp add: safeScale_def palmSize_def dist2d_scale)

lemma isCurled_scale:
  assumes "0 < k" "0.01 \<le> palmSize w m" "0.01 \<le> k * palmSize w m"
  shows "isCurled (scaleAbout k w w) (scaleAbout k w m) (scaleAbout k w t) = isCurled w m t"
  using assms by (simp add: isCurled_def safeScale_scale dist2d_scale mult.assoc)

lemma isPinchCandidate_scale:
  assumes "0 < k" "0.01 \<le> palmSize w m" "0.01 \<le> k * palmSize w m"
  shows "isPinchCandidate (scaleAbout k w w) (scaleAbout k w m)
           (scaleAbout k w a) (scaleAbout k w b)
         = isPinchCandidate w m a b"
  using assms by (simp add: isPinchCandidate_def safeScale_scale dist2d_scale mult.assoc)

lemma curledCount_scale:
  assumes "0 < k" "0.01 \<le> palmSize w m" "0.01 \<le> k * palmSize w m"
  shows "curledCount (scaleAbout k w w) (scaleAbout k w m) (map (scaleAbout k w) tips)
         = curledCount w m tips"
  using assms by (induction tips) (simp_all add: curledCount_def isCurled_scale)

lemma gtype_decide_scale:
  assumes "0 < k" "0.01 \<le> palmSize w m" "0.01 \<le> k * palmSize w m"
  shows "gtype (decide (scaleAbout k w a) (scaleAbout k w b) (scaleAbout k w c)
                  (scaleAbout k w d) (scaleAbout k w e) (scaleAbout k w m) (scaleAbout k w w))
         = gtype (decide a b c d e m w)"
proof -
  have cc: "curledCount (scaleAbout k w w) (scaleAbout k w m)
              [scaleAbout k w b, scaleAbout k w c, scaleAbout k w d, scaleAbout k w e]
            = curledCount w m [b, c, d, e]"
    using curledCount_scale [OF assms, of "[b, c, d, e]"] by simp
  show ?thesis
    unfolding decide_def cc isPinchCandidate_scale [OF assms] by simp
qed

lemma openHand_type:
  "resultType (classifyGesture \<lparr>landmarks = Some [openHand]\<rparr>) = Inr OPEN_PALM"
  by (simp add: Let_def classifyGesture_def classifyHand_21 openHand_def resultType_def
        decide_def curledCount_def isCurled_def isPinchCandidate_def safeScale_def
        palmSize_def dist2d_same_y dist2d_same_x)

lemma openHand_shrunk_type:
  "resultType (classifyGesture (scaleResult (1/100) \<lparr>landmarks = Some [openHand]\<rparr>))
     = Inr CLOSED_FIST"
  by (simp add: Let_def classifyGesture_def classifyHand_21 openHand_def resultType_def
        decide_def scaleResult_def scaleHand_def scaleAbout_def curledCount_def isCurled_def
        isPinchCandidate_def safeScale_def palmSize_def dist2d_same_y dist2d_same_x)

text \<open>
  Claim C3, as stated, fails where the clamp of the palm size to 0.01 is active. The
  open hand \<open>openHand\<close> has palm size 0.1 and four extended fingers: OPEN_PALM. Scaled
  by 1/100 about the wrist its palm size is 0.001, the reference scale is clamped to
  0.01, all four tips (0.002 from the wrist) count as curled: CLOSED_FIST.
\<close>

theorem scale_invariance_counterexample:
  "(0::real) < 1/100 \<and>
   resultType (classifyGesture (scaleResult (1/100) \<lparr>landmarks = Some [openHand]\<rparr>))
     \<noteq> resultType (classifyGesture \<lparr>landmarks = Some [openHand]\<rparr>)"
  by (simp add: openHand_type openHand_shrunk_type)

text \<open>
  In exact arithmetic, with the clamp inactive before and after, every distance and
  every threshold scales by \<open>k\<close> and the gesture tag is unchanged.
\<close>

lemma exact_scale_invariance:
  assumes k: "0 < k"
    and palm: "\<forall>lms others. landmarks result = Some (lms # others) \<and> 21 \<le> length lms \<longrightarrow>
            0.01 \<le> palmSize (lms ! 0) (lms ! 9) \<and> 0.01 \<le> k * palmSize (lms ! 0) (lms ! 9)"
  shows "resultType (classifyGesture (scaleResult k result))
         = resultType (classifyGesture result)"
proof (cases "landmarks result")
  case None
  then show ?thesis by (simp add: classifyGesture_def scaleResult_def)
next
  case (Some hands)
  show ?thesis
  proof (cases hands)
    case Nil
    with Some show ?thesis by (simp add: classifyGesture_def scaleResult_def)
  next
    case (Cons lms others)
    show ?thesis
    proof (cases "length lms < 21")
      case True
      then show ?thesis using Some Cons
        by (simp add: classifyGesture_def scaleResult_def classifyHand_short length_scaleHand)
    next
      case False
      then have len: "21 \<le> length lms" by simp
      with palm Some Cons
      have p: "0.01 \<le> palmSize (lms ! 0) (lms ! 9)" "0.01 \<le> k * palmSize (lms ! 0) (lms ! 9)"
        by auto
      from len have ne: "lms \<noteq> []" by auto
      from len have "classifyHand (scaleHand k lms) =
          Inr (decide (scaleAbout k (lms ! 0) (lms ! 4)) (scaleAbout k (lms ! 0) (lms ! 8))
                 (scaleAbout k (lms ! 0) (lms ! 12)) (scaleAbout k (lms ! 0) (lms ! 16))
                 (scaleAbout k (lms ! 0) (lms ! 20)) (scaleAbout k (lms ! 0) (lms ! 9))
                 (scaleAbout k (lms ! 0) (lms ! 0)))"
        by (simp add: classifyHand_21 length_scaleHand nth_scaleHand nth_scaleHand_0 [OF ne])
      then show ?thesis using Some Cons len
        by (simp add: classifyGesture_def scaleResult_def resultType_def classifyHand_21
              gtype_decide_scale [OF k p])
    qed
  qed
qed

subsection \<open>Scaling about the wrist in rounded arithmetic\<close>

text \<open>
  The tag computed in an arithmetic \<open>M\<close> is the exact one whenever rounding decides
  none of the comparisons.
\<close>

lemma classifyHand_with_21:
  "21 \<le> length lms \<Longrightarrow>
   classifyHand_with M lms =
     Inr (decide_with M (lms ! 4) (lms ! 8) (lms ! 12) (lms ! 16) (lms ! 20) (lms ! 9) (lms ! 0))"
  by (auto simp add: classifyHand_with_def elemAt_def)

lemma classifyHand_with_short: "length lms < 21 \<Longrightarrow> classifyHand_with M lms = Inl TypeError"
  by (simp add: classifyHand_with_def elemAt_def split: option.splits)

lemma gtype_decide_with:
  assumes "isCurled_with M w m b = isCurled w m b" "isCurled_with M w m c = isCurled w m c"
    "isCurled_with M w m d = isCurled w m d" "isCurled_with M w m e = isCurled w m e"
    "isPinchCandidate_with M w m a b = isPinchCandidate w m a b"
  shows "gtype (decide_with M a b c d e m w) = gtype (decide a b c d e m w)"
  using assms by (simp add: decide_with_def decide_def curledCount_with_def curledCount_def)

lemma neutral_type:
  assumes "roundingNeutral M result"
  shows "resultType (classifyGesture_with M result) = resultType (classifyGesture result)"
proof (cases "landmarks result")
  case None
  then show ?thesis by (simp add: classifyGesture_with_def classifyGesture_def resultType_def)
next
  case (Some hands)
  show ?thesis
  proof (cases hands)
    case Nil
    with Some show ?thesis
      by (simp add: classifyGesture_with_def classifyGesture_def resultType_def)
  next
    case (Cons lms others)
    show ?thesis
    proof (cases "length lms < 21")
      case True
      then show ?thesis using Some Cons
        by (simp add: classifyGesture_with_def classifyGesture_def classifyHand_short
              classifyHand_with_short)
    next
      case False
      then have len: "21 \<le> length lms" by simp
      with assms Some Cons have "comparisonsAgree M lms" by (simp add: roundingNeutral_def)
      then have "gtype (decide_with M (lms ! 4) (lms ! 8) (lms ! 12) (lms ! 16) (lms ! 20)
                          (lms ! 9) (lms ! 0))
                 = gtype (decide (lms ! 4) (lms ! 8) (lms ! 12) (lms ! 16) (lms ! 20)
                            (lms ! 9) (lms ! 0))"
        by (intro gtype_decide_with) (simp_all add: comparisonsAgree_def)
      then show ?thesis using Some Cons len
        by (simp add: classifyGesture_with_def classifyGesture_def classifyHand_21
              classifyHand_with_21 resultType_def)
    qed
  qed
qed

lemma classifyGesture_exactMath: "classifyGesture_with exactMath result = classifyGesture result"
proof -
  have d: "dist2d_with exactMath p q = dist2d p q" for p q
    by (simp add: dist2d_with_def dist2d_def exactMath_def)
  have s: "safeScale_with exactMath w m = safeScale w m" for w m
    by (simp add: safeScale_with_def safeScale_def palmSize_def d) (simp add: exactMath_def)
  have c: "isCurled_with exactMath w m = isCurled w m" for w m
    by (rule ext) (simp add: isCurled_with_def isCurled_def d s, simp add: exactMath_def)
  have p: "isPinchCandidate_with exactMath w m a b = isPinchCandidate w m a b" for w m a b
    by (simp add: isPinchCandidate_with_def isPinchCandidate_def d s, simp add: exactMath_def)
  have "decide_with exactMath a b c d e m w = decide a b c d e m w" for a b c d e m w
    by (simp add: decide_with_def decide_def curledCount_with_def curledCount_def c p d,
        simp add: exactMath_def)
  then have h: "classifyHand_with exactMath lms = classifyHand lms" for lms
    by (simp add: classifyHand_with_def classifyHand_def split: option.splits)
  have l: "m_lit exactMath 0 = 0" by (simp add: exactMath_def)
  show ?thesis
    by (simp add: classifyGesture_with_def classifyGesture_def l h split: option.splits)
qed

text \<open>Distances and thresholds of the dyadic hand in double arithmetic.\<close>

lemma rd_square_axis:
  assumes "\<bar>a\<bar> = 1 / 2 ^ n" "n \<le> 511"
  shows "round_double (sqrt (round_double (round_double (round_double a * round_double a)
             + round_double (round_double 0 * round_double 0)))) = 1 / 2 ^ n"
proof -
  have ra: "\<bar>round_double a\<bar> = 1 / 2 ^ n"
  proof (cases "0 \<le> a")
    case True
    then show ?thesis using assms rd_inv_pow2 [of n] by simp
  next
    case False
    then have "a = - (1 / 2 ^ n)" using assms by simp
    then show ?thesis using assms rd_inv_pow2 [of n] by (simp add: rd_neg)
  qed
  have p2: "(2::real) ^ (2 * n) = 2 ^ n * 2 ^ n" by (simp add: mult_2 power_add)
  have "round_double a * round_double a = \<bar>round_double a\<bar> * \<bar>round_double a\<bar>" by simp
  also have "\<dots> = 1 / 2 ^ (2 * n)" unfolding ra p2 by simp
  finally have sq: "round_double a * round_double a = 1 / 2 ^ (2 * n)" .
  have rsq: "round_double (1 / 2 ^ (2 * n)) = 1 / 2 ^ (2 * n)"
    using assms by (intro rd_inv_pow2) simp
  have "sqrt (1 / 2 ^ (2 * n)) = 1 / 2 ^ n"
    unfolding p2 by (simp add: real_sqrt_divide)
  then show ?thesis using assms by (simp add: sq rsq rd_inv_pow2)
qed

lemma dist_double_same_y:
  assumes "lm_y p = lm_y q" "\<bar>lm_x p - lm_x q\<bar> = 1 / 2 ^ n" "n \<le> 511"
  shows "dist2d_with doubleMath p q = 1 / 2 ^ n"
  using rd_square_axis [OF assms(2,3)] assms(1)
  by (simp add: dist2d_with_def doubleMath_def)

lemma dist_double_same_x:
  assumes "lm_x p = lm_x q" "\<bar>lm_y p - lm_y q\<bar> = 1 / 2 ^ n" "n \<le> 511"
  shows "dist2d_with doubleMath p q = 1 / 2 ^ n"
  using rd_square_axis [OF assms(2,3)] assms(1)
  by (simp add: dist2d_with_def doubleMath_def add.commute)

lemma safeScale_double:
  assumes "dist2d_with doubleMath w m = P" "0.02 \<le> P"
  shows "safeScale_with doubleMath w m = P"
proof -
  have "round_double 0.01 \<le> 2 * 0.01" by (intro rd_le_double) simp
  then have "\<not> P < round_double 0.01" using assms(2) by simp
  then show ?thesis using assms(1) by (simp add: safeScale_with_def) (simp add: doubleMath_def)
qed

lemma not_curled_double:
  assumes "dist2d_with doubleMath w m = P" "0.02 \<le> P"
    and "4 * (P * 1.35) \<le> dist2d_with doubleMath tip w"
  shows "\<not> isCurled_with doubleMath w m tip"
proof -
  have "round_double (P * round_double 1.35) \<le> 4 * (P * 1.35)"
    using assms(2) by (intro threshold_bound) simp_all
  then show ?thesis
    using assms(3) safeScale_double [OF assms(1,2)]
    by (simp add: isCurled_with_def) (simp add: doubleMath_def)
qed

lemma not_pinch_double:
  assumes "dist2d_with doubleMath w m = P" "0.02 \<le> P"
    and "4 * (P * 0.65) \<le> dist2d_with doubleMath a b"
  shows "\<not> isPinchCandidate_with doubleMath w m a b"
proof -
  have "round_double (P * round_double 0.65) \<le> 4 * (P * 0.65)"
    using assms(2) by (intro threshold_bound) simp_all
  then show ?thesis
    using assms(3) safeScale_double [OF assms(1,2)]
    by (simp add: isPinchCandidate_with_def) (simp add: doubleMath_def)
qed

lemma agree_axis_hand:
  assumes n: "n \<le> 1"
    and w: "lms ! 0 = \<lparr>lm_x = 0, lm_y = 0, lm_z = 0\<rparr>"
    and m: "lms ! 9 = \<lparr>lm_x = 1 / 2 ^ (n + 3), lm_y = 0, lm_z = 0\<rparr>"
    and tips: "lms ! 8 = \<lparr>lm_x = 1 / 2 ^ n, lm_y = 0, lm_z = 0\<rparr>"
      "lms ! 12 = lms ! 8" "lms ! 16 = lms ! 8" "lms ! 20 = lms ! 8"
    and th: "lms ! 4 = \<lparr>lm_x = 1 / 2 ^ n, lm_y = 1 / 2 ^ n, lm_z = 0\<rparr>"
  shows "comparisonsAgree doubleMath lms"
proof -
  let ?P = "1 / 2 ^ (n + 3) :: real" and ?D = "1 / 2 ^ n :: real"
  have n01: "n = 0 \<or> n = 1" using n by auto
  have palm: "dist2d_with doubleMath (lms ! 0) (lms ! 9) = ?P"
    using n by (intro dist_double_same_y) (simp_all add: w m)
  have P: "0.02 \<le> ?P" using n01 by auto
  have tipd: "dist2d_with doubleMath (lms ! 8) (lms ! 0) = ?D"
    using n by (intro dist_double_same_y) (simp_all add: w tips)
  have pin: "dist2d_with doubleMath (lms ! 4) (lms ! 8) = ?D"
    using n by (intro dist_double_same_x) (simp_all add: th tips)
  have c: "\<not> isCurled_with doubleMath (lms ! 0) (lms ! 9) (lms ! 8)"
    using n01 by (intro not_curled_double [OF palm P]) (auto simp add: tipd)
  have p: "\<not> isPinchCandidate_with doubleMath (lms ! 0) (lms ! 9) (lms ! 4) (lms ! 8)"
    using n01 by (intro not_pinch_double [OF palm P]) (auto simp add: pin)
  have ec: "\<not> isCurled (lms ! 0) (lms ! 9) (lms ! 8)"
    using n01 by (auto simp add: isCurled_def safeScale_def palmSize_def dist2d_same_y w m tips)
  have ep: "\<not> isPinchCandidate (lms ! 0) (lms ! 9) (lms ! 4) (lms ! 8)"
    using n01
    by (auto simp add: isPinchCandidate_def safeScale_def palmSize_def dist2d_same_y
          dist2d_same_x w m tips th)
  show ?thesis
    using c p ec ep by (simp add: comparisonsAgree_def tips(2-4))
qed

lemma dyadicHand_agree: "comparisonsAgree doubleMath dyadicHand"
  by (rule agree_axis_hand [where n = 0]) (simp_all add: dyadicHand_def Let_def)

lemma dyadicHand_half_agree: "comparisonsAgree doubleMath (scaleHand (1/2) dyadicHand)"
  by (rule agree_axis_hand [where n = 1])
     (simp_all add: dyadicHand_def Let_def scaleHand_def scaleAbout_def)

text \<open>
  With the clamp inactive, rounding alone can change the tag. For \<open>thresholdHand\<close> the
  exact curl test fails before and after scaling by 3 (the tips are on the threshold,
  not below it). In double arithmetic the threshold \<open>15/128 * 1.35\<close> rounds to 81/512
  and the test fails, while \<open>45/128 * 1.35\<close> rounds to a double above 243/512 and the
  test succeeds for all four tips.
\<close>

lemma dist_double_axis_x:
  assumes "lm_y p = lm_y q" "\<bar>lm_x p - lm_x q\<bar> = a"
    and "round_double a = a" "round_double (a * a) = a * a"
  shows "dist2d_with doubleMath p q = a"
proof -
  have a0: "0 \<le> a" using assms(2) by auto
  have r: "round_double (lm_x p - lm_x q) * round_double (lm_x p - lm_x q) = a * a"
  proof (cases "0 \<le> lm_x p - lm_x q")
    case True
    then show ?thesis using assms(2,3) by simp
  next
    case False
    then have "lm_x p - lm_x q = - a" using assms(2) by auto
    then show ?thesis using assms(3) by (simp add: rd_neg)
  qed
  have "sqrt (a * a) = a" using a0 by simp
  then show ?thesis
    using assms(1,3,4) by (simp add: dist2d_with_def doubleMath_def r)
qed

lemma dist_double_axis_y:
  assumes "lm_x p = lm_x q" "\<bar>lm_y p - lm_y q\<bar> = a"
    and "round_double a = a" "round_double (a * a) = a * a"
  shows "dist2d_with doubleMath p q = a"
proof -
  have a0: "0 \<le> a" using assms(2) by auto
  have r: "round_double (lm_y p - lm_y q) * round_double (lm_y p - lm_y q) = a * a"
  proof (cases "0 \<le> lm_y p - lm_y q")
    case True
    then show ?thesis using assms(2,3) by simp
  next
    case False
    then have "lm_y p - lm_y q = - a" using assms(2) by auto
    then show ?thesis using assms(3) by (simp add: rd_neg)
  qed
  have "sqrt (a * a) = a" using a0 by simp
  then show ?thesis
    using assms(1,3,4) by (simp add: dist2d_with_def doubleMath_def r)
qed

lemma curl_threshold_before: "round_double (15/128 * round_double 1.35) = 81/512"
proof -
  have p: "(2::real) powr (- 55) = 1 / 2 ^ 55" "(2::real) powr (- 3) = 1 / 2 ^ 3"
    "(2::real) powr (- 2) = 1 / 2 ^ 2"
    by (simp_all add: powr_minus_divide)
  let ?x = "15/128 * (6079859496950170 / 2 ^ 52) :: real"
  have "roundTiesToEven (?x / 2 powr (real_of_int (- 3) - 52)) = 5699868278390784"
    by (rule rte_down) (simp_all add: p)
  from rd_eval [where e = "- 3", OF _ _ _ _ this]
  have "round_double ?x = 81/512" by (simp add: p)
  then show ?thesis unfolding lit135 .
qed

lemma curl_threshold_after:
  "round_double (45/128 * round_double 1.35) = 8549802417586177 / 2 ^ 54"
proof -
  have p: "(2::real) powr (- 54) = 1 / 2 ^ 54" "(2::real) powr (- 2) = 1 / 2 ^ 2"
    "(2::real) powr (- 1) = 1 / 2"
    by (simp_all add: powr_minus_divide)
  let ?x = "45/128 * (6079859496950170 / 2 ^ 52) :: real"
  have "roundTiesToEven (?x / 2 powr (real_of_int (- 2) - 52)) = 8549802417586176 + 1"
    by (rule rte_up) (simp_all add: p)
  from rd_eval [where e = "- 2", OF _ _ _ _ this]
  have "round_double ?x = 8549802417586177 / 2 ^ 54" by (simp add: p)
  then show ?thesis unfolding lit135 .
qed

lemma fixed_values:
  "round_double (15/128) = 15/128" "round_double (225/16384) = 225/16384"
  "round_double (81/512) = 81/512" "round_double (6561/262144) = 6561/262144"
  "round_double (1/4) = 1/4" "round_double (1/16) = 1/16"
  "round_double (45/128) = 45/128" "round_double (2025/16384) = 2025/16384"
  "round_double (243/512) = 243/512" "round_double (59049/262144) = 59049/262144"
  using rd_frac [of 15 7] rd_frac [of 225 14] rd_frac [of 81 9] rd_frac [of 6561 18]
    rd_frac [of 1 2] rd_frac [of 1 4] rd_frac [of 45 7] rd_frac [of 2025 14]
    rd_frac [of 243 9] rd_frac [of 59049 18]
  by simp_all

lemma thresholdHand_before:
  "resultType (classifyGesture_with doubleMath \<lparr>landmarks = Some [thresholdHand]\<rparr>) = Inr OPEN_PALM"
proof -
  let ?w = "\<lparr>lm_x = 0, lm_y = 0, lm_z = 0\<rparr>" and ?m = "\<lparr>lm_x = 15/128, lm_y = 0, lm_z = 0\<rparr>"
  let ?t = "\<lparr>lm_x = 81/512, lm_y = 0, lm_z = 0\<rparr>" and ?th = "\<lparr>lm_x = 81/512, lm_y = 1/4, lm_z = 0\<rparr>"
  have palm: "dist2d_with doubleMath ?w ?m = 15/128"
    by (rule dist_double_axis_x) (simp_all add: fixed_values)
  have tip: "dist2d_with doubleMath ?t ?w = 81/512"
    by (rule dist_double_axis_x) (simp_all add: fixed_values)
  have pin: "dist2d_with doubleMath ?th ?t = 1/4"
    by (rule dist_double_axis_y) (simp_all add: fixed_values)
  have s: "safeScale_with doubleMath ?w ?m = 15/128"
    using palm by (rule safeScale_double) simp
  have c: "\<not> isCurled_with doubleMath ?w ?m ?t"
    using curl_threshold_before by (simp add: isCurled_with_def s tip) (simp add: doubleMath_def)
  have "round_double (15/128 * round_double 0.65) \<le> 2 * (15/128 * round_double 0.65)"
    by (intro rd_le_double) (simp add: rd_nonneg)
  then have "\<not> 1/4 < round_double (15/128 * round_double 0.65)"
    unfolding lit065 by simp
  then have p: "\<not> isPinchCandidate_with doubleMath ?w ?m ?th ?t"
    by (simp add: isPinchCandidate_with_def s pin) (simp add: doubleMath_def)
  show ?thesis
    using c p
    by (simp add: classifyGesture_with_def classifyHand_with_21 thresholdHand_def Let_def
          resultType_def decide_with_def curledCount_with_def)
qed

lemma thresholdHand_after:
  "resultType (classifyGesture_with doubleMath (scaleResult 3 \<lparr>landmarks = Some [thresholdHand]\<rparr>))
     = Inr CLOSED_FIST"
proof -
  let ?w = "\<lparr>lm_x = 0, lm_y = 0, lm_z = 0\<rparr>" and ?m = "\<lparr>lm_x = 45/128, lm_y = 0, lm_z = 0\<rparr>"
  let ?t = "\<lparr>lm_x = 243/512, lm_y = 0, lm_z = 0\<rparr>"
  have palm: "dist2d_with doubleMath ?w ?m = 45/128"
    by (rule dist_double_axis_x) (simp_all add: fixed_values)
  have tip: "dist2d_with doubleMath ?t ?w = 243/512"
    by (rule dist_double_axis_x) (simp_all add: fixed_values)
  have s: "safeScale_with doubleMath ?w ?m = 45/128"
    using palm by (rule safeScale_double) simp
  have c: "isCurled_with doubleMath ?w ?m ?t"
    using curl_threshold_after by (simp add: isCurled_with_def s tip) (simp add: doubleMath_def)
  show ?thesis
    using c
    by (simp add: classifyGesture_with_def classifyHand_with_21 thresholdHand_def Let_def
          resultType_def decide_with_def curledCount_with_def scaleResult_def scaleHand_def
          scaleAbout_def)
qed

lemma thresholdHand_exact:
  "resultType (classifyGesture \<lparr>landmarks = Some [thresholdHand]\<rparr>) = Inr OPEN_PALM"
  "resultType (classifyGesture (scaleResult 3 \<lparr>landmarks = Some [thresholdHand]\<rparr>)) = Inr OPEN_PALM"
  by (simp_all add: Let_def classifyGesture_def classifyHand_21 thresholdHand_def resultType_def
        decide_def scaleResult_def scaleHand_def scaleAbout_def curledCount_def isCurled_def
        isPinchCandidate_def safeScale_def palmSize_def dist2d_same_y dist2d_same_x)

lemma scale_invariance_rounding_example:
  "0.01 \<le> palmSize (thresholdHand ! 0) (thresholdHand ! 9) \<and>
   0.01 \<le> 3 * palmSize (thresholdHand ! 0) (thresholdHand ! 9) \<and>
   resultType (classifyGesture_with doubleMath (scaleResult 3 \<lparr>landmarks = Some [thresholdHand]\<rparr>))
     \<noteq> resultType (classifyGesture_with doubleMath \<lparr>landmarks = Some [thresholdHand]\<rparr>)"
  by (simp add: thresholdHand_before thresholdHand_after)
     (simp add: thresholdHand_def Let_def palmSize_def dist2d_same_y)

text \<open>
  Claim C3, amended. For every detection result, every arithmetic the classifier may
  run on and every positive scale factor \<open>k\<close> such that the palm size of the primary
  hand is at least 0.01 both before and after the scaling, and such that rounding
  decides none of the four curl tests and the pinch test, before and after the scaling
  (each test on the computed distance and threshold comes out as on the exact ones),
  scaling all landmark coordinates about the wrist by \<open>k\<close> leaves the gesture tag
  returned by \<open>classifyGesture\<close> unchanged (and a result that raises before raises
  after).
\<close>

theorem scale_invariance_up_to_rounding:
  assumes k: "0 < k"
    and palm: "\<forall>lms others. landmarks result = Some (lms # others) \<and> 21 \<le> length lms \<longrightarrow>
            0.01 \<le> palmSize (lms ! 0) (lms ! 9) \<and> 0.01 \<le> k * palmSize (lms ! 0) (lms ! 9)"
    and before: "roundingNeutral M result"
    and after: "roundingNeutral M (scaleResult k result)"
  shows "resultType (classifyGesture_with M (scaleResult k result))
         = resultType (classifyGesture_with M result)"
  using neutral_type [OF before] neutral_type [OF after] exact_scale_invariance [OF k palm]
  by simp

theorem scale_invariance_up_to_rounding_witness:
  "(0::real) < 1/2 \<and>
   0.01 \<le> palmSize (dyadicHand ! 0) (dyadicHand ! 9) \<and>
   0.01 \<le> 1/2 * palmSize (dyadicHand ! 0) (dyadicHand ! 9) \<and>
   roundingNeutral doubleMath \<lparr>landmarks = Some [dyadicHand]\<rparr> \<and>
   roundingNeutral doubleMath (scaleResult (1/2) \<lparr>landmarks = Some [dyadicHand]\<rparr>) \<and>
   resultType (classifyGesture_with doubleMath (scaleResult (1/2) \<lparr>landmarks = Some [dyadicHand]\<rparr>))
     = resultType (classifyGesture_with doubleMath \<lparr>landmarks = Some [dyadicHand]\<rparr>)"
proof -
  have p: "palmSize (dyadicHand ! 0) (dyadicHand ! 9) = 1/8"
    by (simp add: dyadicHand_def Let_def palmSize_def dist2d_same_y)
  have b: "roundingNeutral doubleMath \<lparr>landmarks = Some [dyadicHand]\<rparr>"
    by (simp add: roundingNeutral_def dyadicHand_agree)
  have a: "roundingNeutral doubleMath (scaleResult (1/2) \<lparr>landmarks = Some [dyadicHand]\<rparr>)"
    by (simp add: roundingNeutral_def scaleResult_def dyadicHand_half_agree)
  show ?thesis
    using scale_invariance_up_to_rounding [of "1/2" "\<lparr>landmarks = Some [dyadicHand]\<rparr>" doubleMath] a b
    by (simp add: p)
qed

section \<open>Properties of the particle generator\<close>

lemma makeParticle_isRibbon: "isRibbon (fst (makeParticle rnd k i)) = (i < RIBBON_COUNT)"
  unfolding makeParticle_def Let_def by simp

lemma makeParticle_isTrunk:
  "isTrunk (fst (makeParticle rnd k i)) = (\<not> i < RIBBON_COUNT \<and> 5400 < i)"
  unfolding makeParticle_def Let_def by (auto simp add: COUNT_def)

lemma makeParticle_ribbonPos:
  "(ribbonPos (fst (makeParticle rnd k i)) = None) = (\<not> i < RIBBON_COUNT)"
  unfolding makeParticle_def Let_def by simp

lemma makeParticle_id: "p_id (fst (makeParticle rnd k i)) = i"
  unfolding makeParticle_def Let_def by simp

text \<open>A property of every generated particle holds of every particle of the batch.\<close>

lemma particlesLoop_inv:
  assumes "\<And>rnd k i. i < COUNT \<Longrightarrow> P (fst (makeParticle rnd k i))"
  shows "\<forall>p \<in> set acc. P p \<Longrightarrow> \<forall>p \<in> set (particlesLoop rnd k i acc). P p"
proof (induction rnd k i acc rule: particlesLoop.induct)
  case (1 rnd k i acc)
  show ?case
  proof (cases "i < COUNT")
    case True
    have "\<forall>p\<in>set (acc @ [fst (makeParticle rnd k i)]). P p"
      using "1.prems" assms [OF True] by simp
    from "1.IH" [OF True this] show ?thesis
      by (subst particlesLoop.simps) (simp add: True)
  next
    case False
    then show ?thesis using "1.prems" by (subst particlesLoop.simps) simp
  qed
qed

lemma particlesLoop_length:
  "i \<le> COUNT \<Longrightarrow> length (particlesLoop rnd k i acc) = length acc + (COUNT - i)"
proof (induction rnd k i acc rule: particlesLoop.induct)
  case (1 rnd k i acc)
  show ?case
  proof (cases "i < COUNT")
    case True
    with "1.IH" [OF True] show ?thesis
      by (subst particlesLoop.simps) simp
  next
    case False
    then show ?thesis using "1.prems" by (subst particlesLoop.simps) simp
  qed
qed

lemma length_generateParticles: "length (generateParticles rnd) = COUNT"
  by (simp add: generateParticles_def particlesLoop_length)

lemma baseTarget_not_ribbon:
  "\<not> isRibbon p \<Longrightarrow>
   baseTarget appState time p =
     (case appState of SCATTER \<Rightarrow> scatterPos p | HEART \<Rightarrow> heartPos p | _ \<Rightarrow> treePos p)"
  by (cases appState) (simp_all add: baseTarget_def)

text \<open>
  Claim C9. For every particle of the generated batch, whatever the random draws: the
  flags \<open>isRibbon\<close> and \<open>isTrunk\<close> are never both set; a particle with \<open>isRibbon\<close>
  carries a ribbon position; a particle without \<open>isRibbon\<close> carries none, and the
  frame loop never takes the ribbon-flow branch for it: in every application state and
  at every time its base target is one of its stored scatter, heart and tree positions.
\<close>

theorem ribbon_trunk_invariant:
  assumes "p \<in> set (generateParticles rnd)"
  shows "\<not> (isRibbon p \<and> isTrunk p)
       \<and> (isRibbon p \<longrightarrow> ribbonPos p \<noteq> None)
       \<and> (\<not> isRibbon p \<longrightarrow>
            ribbonPos p = None
            \<and> (\<forall>appState time. baseTarget appState time p =
                 (case appState of SCATTER \<Rightarrow> scatterPos p | HEART \<Rightarrow> heartPos p
                  | _ \<Rightarrow> treePos p)))"
proof -
  let ?P = "\<lambda>p. \<not> (isRibbon p \<and> isTrunk p) \<and> (isRibbon p \<longleftrightarrow> ribbonPos p \<noteq> None)"
  have "\<forall>p \<in> set (particlesLoop rnd 0 0 []). ?P p"
    by (rule particlesLoop_inv)
       (simp_all add: makeParticle_isRibbon makeParticle_isTrunk makeParticle_ribbonPos)
  moreover from assms have "p \<in> set (particlesLoop rnd 0 0 [])"
    by (simp add: generateParticles_def)
  ultimately have "?P p" by blast
  then show ?thesis by (auto simp add: baseTarget_not_ribbon)
qed

theorem ribbon_trunk_invariant_witness:
  "generateParticles (\<lambda>_. 0) ! 1000 \<in> set (generateParticles (\<lambda>_. 0)) \<and>
   \<not> (isRibbon (generateParticles (\<lambda>_. 0) ! 1000) \<and> isTrunk (generateParticles (\<lambda>_. 0) ! 1000))"
  using ribbon_trunk_invariant [of "generateParticles (\<lambda>_. 0) ! 1000" "\<lambda>_. 0"]
  by (simp add: length_generateParticles COUNT_def)

section \<open>Properties of the particle integrator\<close>

lemma distanceTo_same_yz:
  "vy a = vy b \<Longrightarrow> vz a = vz b \<Longrightarrow> distanceTo a b = \<bar>vx a - vx b\<bar>"
  by (simp add: distanceTo_def)

lemma swirlOffset_nonzero: "add3 v (swirlOffset time p) \<noteq> v"
proof
  assume "add3 v (swirlOffset time p) = v"
  then have "vx (add3 v (swirlOffset time p)) = vx v" "vy (add3 v (swirlOffset time p)) = vy v"
    by simp_all
  then have "cos (time + real (p_id p)) = 0" "sin (time + real (p_id p)) = 0"
    by (simp_all add: add3_def swirlOffset_def)
  then show False using sin_cos_squared_add [of "time + real (p_id p)"] by simp
qed

text \<open>In a mounted frame every particle goes through the loop body at its own index.\<close>

lemma particlesFrame_nth:
  assumes "i < length particles"
  shows "fst (particlesFrame True appState handPosition time particles) ! i
         = fst (updateParticle appState handPosition time i (particles ! i))"
  using assms by (simp add: particlesFrame_def Let_def nth_enumerate_eq)

text \<open>
  Claim C4, as stated, tests the particle's original scatter position. The code tests
  \<open>initialPos\<close>, which the frame loop overwrites with the current position. The
  particle \<open>driftParticle\<close> starts at its scatter position, 4.1 units from the origin;
  one frame in TREE state moves it to 3.772 units; in a following SCATTER frame with the
  hand at the origin its target carries the swirl offset although its scatter position
  is not within 4 units of the hand.
\<close>

theorem swirl_scatter_position_counterexample:
  "\<not> distanceTo (scatterPos (fst (updateParticle TREE None 0 1000 driftParticle)))
        \<lparr>vx = 0, vy = 0, vz = 0\<rparr> < 4 \<and>
   frameTarget SCATTER (Some \<lparr>vx = 0, vy = 0, vz = 0\<rparr>) 1
       (fst (updateParticle TREE None 0 1000 driftParticle))
     = add3 (scatterPos (fst (updateParticle TREE None 0 1000 driftParticle)))
         (swirlOffset 1 (fst (updateParticle TREE None 0 1000 driftParticle)))"
  by (simp add: updateParticle_def Let_def frameTarget_def baseTarget_def interpolate_def
        lerp_def driftParticle_def distanceTo_same_yz)

text \<open>
  Claim C4, amended. In a frame where a hand position exists and the application state
  is SCATTER, a particle's target is its scatter position plus the swirl offset
  \<open>(0.5 cos (time + id), 0.5 sin (time + id), 0)\<close> if its current stored position (the
  field \<open>initialPos\<close>, as left by the previous frame) is less than 4 units from the hand
  position, and its scatter position alone otherwise; the two differ, the offset being
  never zero.
\<close>

theorem swirl_iff_current_position_near:
  "frameTarget SCATTER (Some h) time p =
     (if distanceTo (initialPos p) h < 4
      then add3 (scatterPos p) (swirlOffset time p)
      else scatterPos p)
   \<and> add3 (scatterPos p) (swirlOffset time p) \<noteq> scatterPos p"
  by (simp add: frameTarget_def baseTarget_def swirlOffset_nonzero)

text \<open>
  Claim C5, as stated, puts the sway inside the smoothing. For \<open>driftParticle\<close> at time
  0 the sway is 0.05, and the stored position after the frame is not the one the
  claim's formula gives.
\<close>

theorem sway_in_smoothing_counterexample:
  "initialPos (fst (updateParticle TREE None 0 1000 driftParticle))
     \<noteq> add3 (initialPos driftParticle)
         (scale3 0.08
            (sub3 (add3 (frameTarget TREE None 0 driftParticle)
                        \<lparr>vx = 0, vy = sway 0 driftParticle, vz = 0\<rparr>)
                  (initialPos driftParticle)))"
  by (simp add: updateParticle_def Let_def frameTarget_def baseTarget_def interpolate_def
        lerp_def driftParticle_def add3_def scale3_def sub3_def sway_def)

text \<open>
  Claim C5, amended. In every frame each particle's stored position is updated by
  exponential smoothing with blend factor 0.08 toward the selected target alone:
  \<open>newPos = oldPos + 0.08 * (target - oldPos)\<close>. The vertical breathing sway
  \<open>0.05 sin (2 time + phase)\<close> is added to the emitted instance position only, after
  the smoothing, and is not stored.
\<close>

theorem smoothing_toward_target:
  "initialPos (fst (updateParticle appState handPosition time i p))
     = add3 (initialPos p)
         (scale3 0.08 (sub3 (frameTarget appState handPosition time p) (initialPos p)))
   \<and> inst_position (snd (updateParticle appState handPosition time i p))
     = add3 (initialPos (fst (updateParticle appState handPosition time i p)))
         \<lparr>vx = 0, vy = sin (2 * time + phase p) * 0.05, vz = 0\<rparr>"
  by (simp add: updateParticle_def Let_def interpolate_def lerp_def add3_def scale3_def
        sub3_def sway_def mult.commute)

subsection \<open>The smoothing step in exact arithmetic\<close>

lemma vec3_eqI: "vx a = vx b \<Longrightarrow> vy a = vy b \<Longrightarrow> vz a = vz b \<Longrightarrow> (a::vec3) = b"
  by simp

lemma distanceTo_pos:
  assumes "(a::vec3) \<noteq> b"
  shows "0 < distanceTo a b"
proof -
  from assms have "vx a \<noteq> vx b \<or> vy a \<noteq> vy b \<or> vz a \<noteq> vz b"
    using vec3_eqI by blast
  then have "0 < (vx a - vx b)\<^sup>2 + (vy a - vy b)\<^sup>2 + (vz a - vz b)\<^sup>2"
    by (auto simp add: add_pos_nonneg add_nonneg_pos)
  then show ?thesis by (simp add: distanceTo_def)
qed

lemma lerp_residual: "sub3 (lerp p t a) t = scale3 (1 - a) (sub3 p t)"
  by (simp add: lerp_def sub3_def scale3_def algebra_simps)

lemma distanceTo_lerp: "distanceTo (lerp p t a) t = \<bar>1 - a\<bar> * distanceTo p t"
proof -
  have "vx (lerp p t a) - vx t = (1 - a) * (vx p - vx t)"
    "vy (lerp p t a) - vy t = (1 - a) * (vy p - vy t)"
    "vz (lerp p t a) - vz t = (1 - a) * (vz p - vz t)"
    by (simp_all add: lerp_def algebra_simps)
  then have "(vx (lerp p t a) - vx t)\<^sup>2 + (vy (lerp p t a) - vy t)\<^sup>2
               + (vz (lerp p t a) - vz t)\<^sup>2
        = (1 - a)\<^sup>2 * ((vx p - vx t)\<^sup>2 + (vy p - vy t)\<^sup>2 + (vz p - vz t)\<^sup>2)"
    by (simp only: power_mult_distrib distrib_left)
  then show ?thesis
    by (simp add: distanceTo_def real_sqrt_mult)
qed

lemma interpolate_residual: "sub3 (interpolate p t) t = scale3 (1 - 0.08) (sub3 p t)"
  by (simp only: interpolate_def lerp_residual)

lemma distanceTo_interpolate: "distanceTo (interpolate p t) t = (1 - 0.08) * distanceTo p t"
  by (simp add: interpolate_def distanceTo_lerp)

lemma distanceTo_iterate:
  "distanceTo (((\<lambda>q. interpolate q t) ^^ n) p) t = (1 - 0.08) ^ n * distanceTo p t"
  by (induction n) (simp_all add: distanceTo_interpolate)

text \<open>
  In exact arithmetic, for a position \<open>p\<close> and a fixed target \<open>t\<close> with \<open>p \<noteq> t\<close>, one
  smoothing step multiplies the distance to \<open>t\<close> by \<open>1 - 0.08\<close>; the offset from the
  target keeps its direction and shrinks by the same factor; after \<open>n\<close> steps the
  distance is \<open>(1 - 0.08)\<^sup>n\<close> times the initial one and tends to 0.
\<close>

lemma exact_smoothing_converges:
  assumes "p \<noteq> t"
  shows "distanceTo (interpolate p t) t = (1 - 0.08) * distanceTo p t
       \<and> distanceTo (interpolate p t) t < distanceTo p t
       \<and> sub3 (interpolate p t) t = scale3 (1 - 0.08) (sub3 p t)
       \<and> (\<forall>n. distanceTo (((\<lambda>q. interpolate q t) ^^ n) p) t
                = (1 - 0.08) ^ n * distanceTo p t)
       \<and> (\<forall>n. distanceTo (((\<lambda>q. interpolate q t) ^^ Suc n) p) t
                < distanceTo (((\<lambda>q. interpolate q t) ^^ n) p) t)
       \<and> (\<lambda>n. distanceTo (((\<lambda>q. interpolate q t) ^^ n) p) t) \<longlonglongrightarrow> 0"
proof -
  have d: "0 < distanceTo p t" using assms by (rule distanceTo_pos)
  have one: "distanceTo (interpolate p t) t < distanceTo p t"
    using d by (simp add: distanceTo_interpolate)
  have step: "distanceTo (((\<lambda>q. interpolate q t) ^^ Suc n) p) t
                < distanceTo (((\<lambda>q. interpolate q t) ^^ n) p) t" for n
  proof -
    have "distanceTo (((\<lambda>q. interpolate q t) ^^ Suc n) p) t
            = (1 - 0.08) * distanceTo (((\<lambda>q. interpolate q t) ^^ n) p) t"
      by (simp add: distanceTo_interpolate)
    moreover have "0 < distanceTo (((\<lambda>q. interpolate q t) ^^ n) p) t"
      using d by (simp add: distanceTo_iterate)
    ultimately show ?thesis by simp
  qed
  have "(\<lambda>n. (1 - 0.08 :: real) ^ n) \<longlonglongrightarrow> 0"
    by (rule LIMSEQ_realpow_zero) simp_all
  then have "(\<lambda>n. (1 - 0.08 :: real) ^ n * distanceTo p t) \<longlonglongrightarrow> 0 * distanceTo p t"
    by (rule tendsto_mult_right)
  then have lim: "(\<lambda>n. distanceTo (((\<lambda>q. interpolate q t) ^^ n) p) t) \<longlonglongrightarrow> 0"
    by (simp add: distanceTo_iterate)
  show ?thesis
    using one step lim
    by (simp add: distanceTo_interpolate interpolate_residual distanceTo_iterate)
qed

subsection \<open>The smoothing step in double arithmetic\<close>

lemma interpolate_double_components:
  "vx (interpolate_double p t) = interpolate1_double (vx p) (vx t)"
  "vy (interpolate_double p t) = interpolate1_double (vy p) (vy t)"
  "vz (interpolate_double p t) = interpolate1_double (vz p) (vz t)"
  by (simp_all add: interpolate_double_def lerp_double_def interpolate1_double_def)

lemma blend_bounds: "0 \<le> round_double 0.08" "round_double 0.08 \<le> 0.16"
  using rd_nonneg [of "0.08"] rd_le_double [of "0.08"] by simp_all

lemma increment_bounds:
  assumes "0 \<le> d"
  shows "0 \<le> round_double (round_double d * round_double 0.08)"
    and "round_double (round_double d * round_double 0.08) \<le> d"
proof -
  let ?c = "round_double 0.08"
  have d: "0 \<le> round_double d" "round_double d \<le> 2 * d"
    using assms by (simp_all add: rd_nonneg rd_le_double)
  have p: "0 \<le> round_double d * ?c" using d(1) blend_bounds(1) by simp
  then show "0 \<le> round_double (round_double d * ?c)" by (rule rd_nonneg)
  have "round_double (round_double d * ?c) \<le> 2 * (round_double d * ?c)"
    using p by (rule rd_le_double)
  also have "\<dots> \<le> 2 * ((2 * d) * 0.16)"
    using d blend_bounds assms by (intro mult_left_mono mult_mono) simp_all
  also have "\<dots> \<le> d" using assms by simp
  finally show "round_double (round_double d * ?c) \<le> d" .
qed

lemma lerp1_up:
  assumes "round_double x = x" "round_double t = t" "x \<le> t"
  shows "x \<le> interpolate1_double x t" "interpolate1_double x t \<le> t"
proof -
  let ?y = "round_double (round_double (t - x) * round_double 0.08)"
  have y: "0 \<le> ?y" "?y \<le> t - x" using increment_bounds [of "t - x"] assms(3) by simp_all
  have "round_double x \<le> round_double (x + ?y)" using y(1) by (intro rd_mono) simp
  then show "x \<le> interpolate1_double x t" by (simp add: interpolate1_double_def lerp1_double_def assms(1))
  have "round_double (x + ?y) \<le> round_double t" using y(2) by (intro rd_mono) simp
  then show "interpolate1_double x t \<le> t" by (simp add: interpolate1_double_def lerp1_double_def assms(2))
qed

lemma lerp1_down:
  assumes "round_double x = x" "round_double t = t" "t \<le> x"
  shows "t \<le> interpolate1_double x t" "interpolate1_double x t \<le> x"
proof -
  let ?y = "round_double (round_double (x - t) * round_double 0.08)"
  have y: "0 \<le> ?y" "?y \<le> x - t" using increment_bounds [of "x - t"] assms(3) by simp_all
  have "round_double (t - x) = - round_double (x - t)"
    using rd_neg [of "x - t"] by simp
  then have l: "interpolate1_double x t = round_double (x - ?y)"
    using rd_neg [of "round_double (x - t) * round_double 0.08"] by (simp add: interpolate1_double_def lerp1_double_def)
  have "round_double t \<le> round_double (x - ?y)" using y(2) by (intro rd_mono) simp
  then show "t \<le> interpolate1_double x t" by (simp add: l assms(2))
  have "round_double (x - ?y) \<le> round_double x" using y(1) by (intro rd_mono) simp
  then show "interpolate1_double x t \<le> x" by (simp add: l assms(1))
qed

lemma lerp1_between:
  assumes "safeDouble x" "safeDouble t"
  shows "min x t \<le> interpolate1_double x t" "interpolate1_double x t \<le> max x t" "\<bar>interpolate1_double x t - t\<bar> \<le> \<bar>x - t\<bar>"
    "safeDouble (interpolate1_double x t)"
proof -
  have fx: "round_double x = x" and ft: "round_double t = t"
    using assms by (simp_all add: safeDouble_def)
  have b: "min x t \<le> interpolate1_double x t \<and> interpolate1_double x t \<le> max x t"
  proof (cases "x \<le> t")
    case True
    with lerp1_up [OF fx ft] show ?thesis by simp
  next
    case False
    then have "t \<le> x" by simp
    with lerp1_down [OF fx ft] show ?thesis by simp
  qed
  then show "min x t \<le> interpolate1_double x t" "interpolate1_double x t \<le> max x t" by simp_all
  from b show "\<bar>interpolate1_double x t - t\<bar> \<le> \<bar>x - t\<bar>" by (simp add: min_def max_def abs_if split: if_splits)
  have "round_double (interpolate1_double x t) = interpolate1_double x t" by (simp add: interpolate1_double_def lerp1_double_def rd_idem)
  moreover have "\<bar>interpolate1_double x t\<bar> \<le> 2 ^ 1022"
    using b assms by (simp add: safeDouble_def min_def max_def abs_if split: if_splits)
  ultimately show "safeDouble (interpolate1_double x t)" by (simp add: safeDouble_def)
qed

lemma distanceTo_componentwise:
  assumes "\<bar>vx a - vx t\<bar> \<le> \<bar>vx b - vx t\<bar>" "\<bar>vy a - vy t\<bar> \<le> \<bar>vy b - vy t\<bar>"
    "\<bar>vz a - vz t\<bar> \<le> \<bar>vz b - vz t\<bar>"
  shows "distanceTo a t \<le> distanceTo b t"
proof -
  have "(vx a - vx t)\<^sup>2 \<le> (vx b - vx t)\<^sup>2" "(vy a - vy t)\<^sup>2 \<le> (vy b - vy t)\<^sup>2"
    "(vz a - vz t)\<^sup>2 \<le> (vz b - vz t)\<^sup>2"
    using assms by (simp_all add: abs_le_square_iff)
  then show ?thesis unfolding distanceTo_def by (intro real_sqrt_le_mono) linarith
qed

lemma step_safe:
  assumes "safeDoubleVec p" "safeDoubleVec t"
  shows "safeDoubleVec (interpolate_double p t)"
    and "distanceTo (interpolate_double p t) t \<le> distanceTo p t"
  using assms
  by (simp_all add: safeDoubleVec_def interpolate_double_components lerp1_between
        distanceTo_componentwise)

lemma iterate_safe:
  assumes "safeDoubleVec p" "safeDoubleVec t"
  shows "safeDoubleVec (((\<lambda>q. interpolate_double q t) ^^ n) p)"
  using assms by (induction n) (simp_all add: step_safe)

lemma safeDouble_zero: "safeDouble 0"
  by (simp add: safeDouble_def)

lemma safeDouble_one: "safeDouble 1"
  by (simp add: safeDouble_def)

lemma rd_eps: "round_double (1 / 2 ^ 52) = 1 / 2 ^ 52"
proof -
  have "(2::real) powr real_of_int (- 52) = 1 / 2 ^ 52"
    by (simp add: powr_minus_divide)
  have eq: "(2::real) powr real_of_int (- 52) = 1 / 2 ^ 52"
    by (simp add: powr_minus_divide)
  have "round_double (2 powr real_of_int (- 52)) = 2 powr real_of_int (- 52)"
    by (rule rd_pow2) simp
  then show ?thesis unfolding eq .
qed

lemma rd_one_plus_eps: "round_double (1 + 1 / 2 ^ 52) = 1 + 1 / 2 ^ 52"
proof -
  let ?x = "1 + 1 / 2 ^ 52 :: real"
  have e: "exponentOf ?x = 0" by (intro exponentOf_eq) simp_all
  have "ulp ?x = 2 powr (- 52)" unfolding ulp_def e by simp
  then have u: "ulp ?x = 1 / 2 ^ 52" by (simp add: powr_minus_divide)
  have "?x = ulp ?x * real_of_int (2 ^ 52 + 1)" unfolding u by simp
  then show ?thesis by (intro rd_on_grid [where m = "2 ^ 52 + 1"]) simp_all
qed

lemma lerp1_stalls: "interpolate1_double 1 (1 + 1 / 2 ^ 52) = 1"
proof -
  let ?y = "round_double (round_double (1 / 2 ^ 52) * round_double 0.08)"
  have "0 \<le> ?y" "?y \<le> 2 * ((1 / 2 ^ 52) * 0.16)"
  proof -
    have p: "0 \<le> (1 / 2 ^ 52) * round_double 0.08" using blend_bounds(1) by simp
    then show "0 \<le> ?y" unfolding rd_eps by (rule rd_nonneg)
    have "?y \<le> 2 * ((1 / 2 ^ 52) * round_double 0.08)"
      unfolding rd_eps using p by (rule rd_le_double)
    also have "\<dots> \<le> 2 * ((1 / 2 ^ 52) * 0.16)"
      using blend_bounds(2) by (intro mult_left_mono) simp_all
    finally show "?y \<le> 2 * ((1 / 2 ^ 52) * 0.16)" .
  qed
  then have "1 \<le> 1 + ?y" "1 + ?y < 1 + 2 powr (- 53)"
    by (simp_all add: powr_minus_divide)
  then have "round_double (1 + ?y) = 1" by (rule rd_stall_at_one)
  then show ?thesis by (simp add: interpolate1_double_def lerp1_double_def)
qed

lemma lerp1_zero: "interpolate1_double 0 0 = 0"
  by (simp add: interpolate1_double_def lerp1_double_def)






section \<open>Properties of the grab and zoom controller\<close>

subsection \<open>The scan for the closest grab candidate\<close>

text \<open>The id found by the scan is null or the id of a child within 1.5 units.\<close>

lemma scanChild_id:
  assumes "closestId acc = None \<or> closestId acc = Some a"
    and "case elemAt (fr_photos inp) (fst ic) of None \<Rightarrow> True
         | Some photo \<Rightarrow>
             distanceTo hand (fr_worldOf inp (obj_position (snd ic))) < 1.5 \<longrightarrow> ph_id photo = a"
  shows "closestId (scanChild inp hand acc ic) = None
         \<or> closestId (scanChild inp hand acc ic) = Some a"
  using assms by (auto simp add: scanChild_def Let_def split: option.splits)

lemma foldl_scanChild_id:
  assumes "list_all
             (\<lambda>ic. case elemAt (fr_photos inp) (fst ic) of None \<Rightarrow> True
                   | Some photo \<Rightarrow>
                       distanceTo hand (fr_worldOf inp (obj_position (snd ic))) < 1.5
                         \<longrightarrow> ph_id photo = a) ics"
  shows "closestId acc = None \<or> closestId acc = Some a \<Longrightarrow>
         closestId (foldl (scanChild inp hand) acc ics) = None
         \<or> closestId (foldl (scanChild inp hand) acc ics) = Some a"
  using assms
proof (induction ics arbitrary: acc)
  case Nil
  then show ?case by simp
next
  case (Cons ic ics)
  from Cons.prems
  have "closestId (scanChild inp hand acc ic) = None
        \<or> closestId (scanChild inp hand acc ic) = Some a"
    by (intro scanChild_id) simp_all
  then show ?case using Cons.IH Cons.prems by simp
qed

lemma findClosest_id:
  assumes "noOtherCandidate a inp st" "groupChildren st = Some children"
  shows "closestId (findClosest inp children) = None
         \<or> closestId (findClosest inp children) = Some a"
proof (cases "fr_handPosition inp")
  case None
  then show ?thesis by (simp add: findClosest_def)
next
  case (Some hand)
  show ?thesis
  proof (cases "fr_isPinching inp \<and> fr_appState inp = SCATTER")
    case True
    from assms Some True
    have "list_all
            (\<lambda>ic. case elemAt (fr_photos inp) (fst ic) of None \<Rightarrow> True
                  | Some photo \<Rightarrow>
                      distanceTo hand (fr_worldOf inp (obj_position (snd ic))) < 1.5
                        \<longrightarrow> ph_id photo = a) (enumerate 0 children)"
      by (simp add: noOtherCandidate_def)
    from foldl_scanChild_id [OF this, of "\<lparr>closestDist = None, closestId = None\<rparr>"]
    show ?thesis using Some True by (simp add: findClosest_def)
  next
    case False
    then show ?thesis using Some by (auto simp add: findClosest_def)
  qed
qed

lemma findClosest_not_pinching:
  "\<not> fr_isPinching inp \<Longrightarrow> findClosest inp children = \<lparr>closestDist = None, closestId = None\<rparr>"
  by (simp add: findClosest_def split: option.splits)

text \<open>Children before the closest one leave a larger distance, or none, in \<open>closestDist\<close>.\<close>

lemma foldl_scanChild_above:
  assumes "\<forall>ic \<in> set ics. fst ic < length (fr_photos inp) \<longrightarrow>
             m < distanceTo hand (fr_worldOf inp (obj_position (snd ic)))"
  shows "closestDist acc = None \<or> (\<exists>d. closestDist acc = Some d \<and> m < d) \<Longrightarrow>
         closestDist (foldl (scanChild inp hand) acc ics) = None
         \<or> (\<exists>d. closestDist (foldl (scanChild inp hand) acc ics) = Some d \<and> m < d)"
  using assms
proof (induction ics arbitrary: acc)
  case Nil
  then show ?case by simp
next
  case (Cons ic ics)
  have "closestDist (scanChild inp hand acc ic) = None
        \<or> (\<exists>d. closestDist (scanChild inp hand acc ic) = Some d \<and> m < d)"
    using Cons.prems by (auto simp add: scanChild_def elemAt_def Let_def)
  then show ?case using Cons.IH Cons.prems by simp
qed

text \<open>Children after the closest one, none of them closer, leave the locals as they are.\<close>

lemma foldl_scanChild_keep:
  assumes "\<forall>ic \<in> set ics. fst ic < length (fr_photos inp) \<longrightarrow>
             m \<le> distanceTo hand (fr_worldOf inp (obj_position (snd ic)))"
  shows "foldl (scanChild inp hand) \<lparr>closestDist = Some m, closestId = x\<rparr> ics
         = \<lparr>closestDist = Some m, closestId = x\<rparr>"
  using assms
proof (induction ics)
  case Nil
  then show ?case by simp
next
  case (Cons ic ics)
  have "scanChild inp hand \<lparr>closestDist = Some m, closestId = x\<rparr> ic
        = \<lparr>closestDist = Some m, closestId = x\<rparr>"
    using Cons.prems by (auto simp add: scanChild_def elemAt_def Let_def)
  then show ?case using Cons by simp
qed

lemma scanChild_take:
  assumes "elemAt (fr_photos inp) j = Some photo"
    and "distanceTo hand (fr_worldOf inp (obj_position c)) < 1.5"
    and "closestDist acc = None
         \<or> (\<exists>d. closestDist acc = Some d \<and> distanceTo hand (fr_worldOf inp (obj_position c)) < d)"
  shows "scanChild inp hand acc (j, c)
         = \<lparr>closestDist = Some (distanceTo hand (fr_worldOf inp (obj_position c))),
            closestId = Some (ph_id photo)\<rparr>"
  using assms by (auto simp add: scanChild_def Let_def)

lemma enumerate_split:
  assumes "j < length xs"
  shows "enumerate 0 xs
         = enumerate 0 (take j xs) @ (j, xs ! j) # enumerate (Suc j) (drop (Suc j) xs)"
proof -
  have "enumerate 0 xs = enumerate 0 (take j xs @ xs ! j # drop (Suc j) xs)"
    using assms by (simp add: id_take_nth_drop [symmetric])
  also have "\<dots> = enumerate 0 (take j xs) @ (j, xs ! j) # enumerate (Suc j) (drop (Suc j) xs)"
    using assms by (simp add: enumerate_append_eq)
  finally show ?thesis .
qed

lemma findClosest_closest:
  assumes hand: "fr_handPosition inp = Some hand"
    and pinch: "fr_isPinching inp" "fr_appState inp = SCATTER"
    and j: "j < length children" "elemAt (fr_photos inp) j = Some photo"
    and near: "distanceTo hand (fr_worldOf inp (obj_position (children ! j))) < 1.5"
    and closest: "\<forall>i < length children. i < length (fr_photos inp) \<longrightarrow>
        (i < j \<longrightarrow> distanceTo hand (fr_worldOf inp (obj_position (children ! j)))
                     < distanceTo hand (fr_worldOf inp (obj_position (children ! i))))
      \<and> (j < i \<longrightarrow> distanceTo hand (fr_worldOf inp (obj_position (children ! j)))
                     \<le> distanceTo hand (fr_worldOf inp (obj_position (children ! i))))"
  shows "closestId (findClosest inp children) = Some (ph_id photo)"
proof -
  let ?m = "distanceTo hand (fr_worldOf inp (obj_position (children ! j)))"
  let ?init = "\<lparr>closestDist = None, closestId = None\<rparr>"
  let ?pre = "foldl (scanChild inp hand) ?init (enumerate 0 (take j children))"
  have "\<forall>ic \<in> set (enumerate 0 (take j children)). fst ic < length (fr_photos inp) \<longrightarrow>
          ?m < distanceTo hand (fr_worldOf inp (obj_position (snd ic)))"
    using closest j(1) by (auto simp add: in_set_enumerate_eq)
  from foldl_scanChild_above [OF this, of ?init]
  have pre: "closestDist ?pre = None \<or> (\<exists>d. closestDist ?pre = Some d \<and> ?m < d)"
    by simp
  have at_j: "scanChild inp hand ?pre (j, children ! j)
              = \<lparr>closestDist = Some ?m, closestId = Some (ph_id photo)\<rparr>"
    using j(2) near pre by (rule scanChild_take)
  have "\<forall>ic \<in> set (enumerate (Suc j) (drop (Suc j) children)).
          fst ic < length (fr_photos inp) \<longrightarrow>
          ?m \<le> distanceTo hand (fr_worldOf inp (obj_position (snd ic)))"
    using closest j(1) by (auto simp add: in_set_enumerate_eq)
  from foldl_scanChild_keep [OF this]
  have "foldl (scanChild inp hand) ?init (enumerate 0 children)
        = \<lparr>closestDist = Some ?m, closestId = Some (ph_id photo)\<rparr>"
    by (simp add: enumerate_split [OF j(1)] at_j)
  then show ?thesis using hand pinch by (simp add: findClosest_def)
qed

subsection \<open>The two-photo scene\<close>

lemma distanceTo_nonneg: "0 \<le> distanceTo a b"
  by (simp add: distanceTo_def)

lemma distanceTo_ge_x: "\<bar>vx a - vx b\<bar> \<le> distanceTo a b"
proof -
  have "sqrt ((vx a - vx b)\<^sup>2)
        \<le> sqrt ((vx a - vx b)\<^sup>2 + (vy a - vy b)\<^sup>2 + (vz a - vz b)\<^sup>2)"
    by (rule real_sqrt_le_mono) simp
  then show ?thesis by (simp add: distanceTo_def)
qed

lemma distanceTo_ge_y: "\<bar>vy a - vy b\<bar> \<le> distanceTo a b"
proof -
  have "sqrt ((vy a - vy b)\<^sup>2)
        \<le> sqrt ((vx a - vx b)\<^sup>2 + (vy a - vy b)\<^sup>2 + (vz a - vz b)\<^sup>2)"
    by (rule real_sqrt_le_mono) simp
  then show ?thesis by (simp add: distanceTo_def)
qed

text \<open>
  After the first frame photo \<open>a\<close> is grabbed: its billboard has moved a tenth of the way
  to the point 0.5 in front of the hand and a tenth of the way to scale 4.
\<close>

lemma afterGrab_eq:
  "afterGrab =
     \<lparr>groupChildren =
        Some [\<lparr>obj_position = \<lparr>vx = 5, vy = 0, vz = 0\<rparr>,
               obj_scale = \<lparr>vx = 0.935, vy = 0.935, vz = 0.935\<rparr>,
               obj_inner_rotation_z = Some 0\<rparr>,
              \<lparr>obj_position = \<lparr>vx = 0, vy = 0, vz = 0.05\<rparr>,
               obj_scale = \<lparr>vx = 1.3, vy = 1.3, vz = 1.3\<rparr>,
               obj_inner_rotation_z = Some 0\<rparr>],
      activePhotoId = Some ''a''\<rparr>"
  by (simp add: afterGrab_def floatingPhotosFrame_def Let_def findClosest_def pinchAt_def
        twoPhotosStart_def photoA_def photoB_def billboardAt_def scanChild_def elemAt_def
        updateActive_def truthy_def animateChild_def photoTarget_def lerp_def
        MathUtils_lerp_def add3_def distanceTo_same_yz enumerate_eq_zip)

lemma far_b_from_a:
  "\<not> distanceTo \<lparr>vx = 5, vy = 0, vz = 0\<rparr> \<lparr>vx = 0, vy = 0, vz = 0.05\<rparr> < 1.5"
  using distanceTo_ge_x [of "\<lparr>vx = 5, vy = 0, vz = 0\<rparr>" "\<lparr>vx = 0, vy = 0, vz = 0.05\<rparr>"]
  by simp

lemma far_up_from_a:
  "\<not> distanceTo \<lparr>vx = 0, vy = 3, vz = 0\<rparr> \<lparr>vx = 0, vy = 0, vz = 0.05\<rparr> < 1.5"
  using distanceTo_ge_y [of "\<lparr>vx = 0, vy = 3, vz = 0\<rparr>" "\<lparr>vx = 0, vy = 0, vz = 0.05\<rparr>"]
  by simp

lemma far_up_from_b:
  "\<not> distanceTo \<lparr>vx = 0, vy = 3, vz = 0\<rparr> \<lparr>vx = 5, vy = 0, vz = 0\<rparr> < 1.5"
  using distanceTo_ge_x [of "\<lparr>vx = 0, vy = 3, vz = 0\<rparr>" "\<lparr>vx = 5, vy = 0, vz = 0\<rparr>"]
  by simp

lemma afterGrab_switch:
  "activePhotoId (floatingPhotosFrame (pinchAt \<lparr>vx = 5, vy = 0, vz = 0\<rparr>) afterGrab) = Some ''b''"
  unfolding afterGrab_eq
  using far_b_from_a
  by (simp add: floatingPhotosFrame_def Let_def findClosest_def pinchAt_def photoA_def
        photoB_def scanChild_def elemAt_def updateActive_def truthy_def distanceTo_same_yz
        enumerate_eq_zip)

lemma afterGrab_held: "heldThrough ''a'' [pinchAt \<lparr>vx = 0, vy = 3, vz = 0\<rparr>] afterGrab"
  unfolding afterGrab_eq
  using far_up_from_a far_up_from_b
  by (simp add: noOtherCandidate_def pinchAt_def photoA_def photoB_def elemAt_def
        enumerate_eq_zip)

subsection \<open>Stickiness of the grab\<close>

lemma frame_keeps_active:
  assumes "activePhotoId st = Some a" "fr_isPinching inp" "noOtherCandidate a inp st"
  shows "activePhotoId (floatingPhotosFrame inp st) = Some a"
proof (cases "groupChildren st")
  case None
  then show ?thesis using assms by (simp add: floatingPhotosFrame_def)
next
  case (Some children)
  from findClosest_id [OF assms(3) Some]
  show ?thesis using assms(1,2) Some
    by (auto simp add: floatingPhotosFrame_def Let_def updateActive_def truthy_def)
qed

lemma run_keeps_active:
  "activePhotoId st = Some a \<Longrightarrow> heldThrough a inps st \<Longrightarrow>
   activePhotoId (runFrames inps st) = Some a"
proof (induction inps arbitrary: st)
  case Nil
  then show ?case by (simp add: runFrames_def)
next
  case (Cons inp inps)
  from Cons.prems have "activePhotoId (floatingPhotosFrame inp st) = Some a"
    by (simp add: frame_keeps_active)
  from Cons.IH [OF this] Cons.prems show ?case by (simp add: runFrames_def)
qed

lemma frame_clears:
  "groupChildren st = Some children \<Longrightarrow> \<not> fr_isPinching inp \<Longrightarrow>
   activePhotoId (floatingPhotosFrame inp st) = None"
  by (simp add: floatingPhotosFrame_def Let_def findClosest_not_pinching updateActive_def
        truthy_def)

text \<open>
  Claim C7, as stated, keeps the grabbed photo for as long as the pinch continues. In
  the two-photo scene a first pinching frame with the hand at the origin grabs photo
  \<open>a\<close>; in the next frame the pinch continues, the hand is at \<open>(5, 0, 0)\<close> on photo
  \<open>b\<close>, and the active grab target is no longer \<open>a\<close>.
\<close>

theorem grab_sticky_counterexample:
  "activePhotoId (runFrames [pinchAt \<lparr>vx = 0, vy = 0, vz = 0\<rparr>] twoPhotosStart) = Some ''a'' \<and>
   fr_isPinching (pinchAt \<lparr>vx = 5, vy = 0, vz = 0\<rparr>) \<and>
   activePhotoId
     (runFrames [pinchAt \<lparr>vx = 0, vy = 0, vz = 0\<rparr>, pinchAt \<lparr>vx = 5, vy = 0, vz = 0\<rparr>]
        twoPhotosStart) \<noteq> Some ''a''"
proof -
  have "runFrames [pinchAt \<lparr>vx = 0, vy = 0, vz = 0\<rparr>] twoPhotosStart = afterGrab"
    by (simp add: runFrames_def afterGrab_def)
  moreover have "runFrames [pinchAt \<lparr>vx = 0, vy = 0, vz = 0\<rparr>, pinchAt \<lparr>vx = 5, vy = 0, vz = 0\<rparr>]
                   twoPhotosStart
                 = floatingPhotosFrame (pinchAt \<lparr>vx = 5, vy = 0, vz = 0\<rparr>) afterGrab"
    by (simp add: runFrames_def afterGrab_def)
  moreover have "activePhotoId afterGrab = Some ''a''"
    by (simp add: afterGrab_eq)
  moreover have "fr_isPinching (pinchAt \<lparr>vx = 5, vy = 0, vz = 0\<rparr>)"
    by (simp add: pinchAt_def)
  ultimately show ?thesis
    by (simp add: afterGrab_switch)
qed

text \<open>
  Claim C7, amended. Once a photo is the active grab target, it remains the active grab
  target through every subsequent frame in which the pinch continues and no other photo
  is a grab candidate (no child showing another photo lies less than 1.5 units from the
  hand in a SCATTER frame), however far the hand moves from the grabbed photo itself;
  and in any frame with a mounted group in which the pinch has ended the active grab
  target is cleared.
\<close>

theorem grab_sticky:
  "(activePhotoId st = Some a \<and> heldThrough a inps st
      \<longrightarrow> activePhotoId (runFrames inps st) = Some a)
   \<and> (groupChildren st \<noteq> None \<and> \<not> fr_isPinching inp
      \<longrightarrow> activePhotoId (floatingPhotosFrame inp st) = None)"
  by (auto simp add: run_keeps_active frame_clears)

theorem grab_sticky_witness:
  "activePhotoId afterGrab = Some ''a'' \<and>
   heldThrough ''a'' [pinchAt \<lparr>vx = 0, vy = 3, vz = 0\<rparr>] afterGrab \<and>
   \<not> distanceTo \<lparr>vx = 0, vy = 3, vz = 0\<rparr> \<lparr>vx = 0, vy = 0, vz = 0.05\<rparr> < 1.5 \<and>
   activePhotoId (runFrames [pinchAt \<lparr>vx = 0, vy = 3, vz = 0\<rparr>] afterGrab) = Some ''a'' \<and>
   groupChildren afterGrab \<noteq> None \<and>
   \<not> fr_isPinching ((pinchAt \<lparr>vx = 0, vy = 3, vz = 0\<rparr>)\<lparr>fr_isPinching := False\<rparr>) \<and>
   activePhotoId
     (floatingPhotosFrame ((pinchAt \<lparr>vx = 0, vy = 3, vz = 0\<rparr>)\<lparr>fr_isPinching := False\<rparr>)
        afterGrab) = None"
  using grab_sticky [of afterGrab "''a''" "[pinchAt \<lparr>vx = 0, vy = 3, vz = 0\<rparr>]"
      "(pinchAt \<lparr>vx = 0, vy = 3, vz = 0\<rparr>)\<lparr>fr_isPinching := False\<rparr>"]
    afterGrab_held far_up_from_a
  by (simp add: afterGrab_eq)

text \<open>
  Claim C10. In a pinching SCATTER frame with a hand position, let the child at index
  \<open>j\<close> show a photo (with a non-empty id, as every generated id is), lie less than 1.5
  units from the hand, be strictly closer to the hand than every earlier child with a
  photo and at least as close as every later one. Then after the frame the active grab
  target is that photo, whatever it was before: a photo grabbed in an earlier frame of
  the same pinch is replaced.
\<close>

theorem grab_switches_to_closest:
  assumes "groupChildren st = Some children"
    and "fr_handPosition inp = Some hand"
    and "fr_isPinching inp" "fr_appState inp = SCATTER"
    and "j < length children" "elemAt (fr_photos inp) j = Some photo"
    and "ph_id photo \<noteq> []"
    and "distanceTo hand (fr_worldOf inp (obj_position (children ! j))) < 1.5"
    and "\<forall>i < length children. i < length (fr_photos inp) \<longrightarrow>
        (i < j \<longrightarrow> distanceTo hand (fr_worldOf inp (obj_position (children ! j)))
                     < distanceTo hand (fr_worldOf inp (obj_position (children ! i))))
      \<and> (j < i \<longrightarrow> distanceTo hand (fr_worldOf inp (obj_position (children ! j)))
                     \<le> distanceTo hand (fr_worldOf inp (obj_position (children ! i))))"
  shows "activePhotoId (floatingPhotosFrame inp st) = Some (ph_id photo)"
  using findClosest_closest [OF assms(2-6) assms(8,9)] assms(1,7)
  by (simp add: floatingPhotosFrame_def Let_def updateActive_def truthy_def)

theorem grab_switches_to_closest_witness:
  "activePhotoId afterGrab = Some ''a'' \<and>
   fr_isPinching (pinchAt \<lparr>vx = 5, vy = 0, vz = 0\<rparr>) \<and>
   activePhotoId (floatingPhotosFrame (pinchAt \<lparr>vx = 5, vy = 0, vz = 0\<rparr>) afterGrab)
     = Some ''b''"
proof -
  let ?children = "[\<lparr>obj_position = \<lparr>vx = 5, vy = 0, vz = 0\<rparr>,
                     obj_scale = \<lparr>vx = 0.935, vy = 0.935, vz = 0.935\<rparr>,
                     obj_inner_rotation_z = Some 0\<rparr>,
                    \<lparr>obj_position = \<lparr>vx = 0, vy = 0, vz = 0.05\<rparr>,
                     obj_scale = \<lparr>vx = 1.3, vy = 1.3, vz = 1.3\<rparr>,
                     obj_inner_rotation_z = Some 0\<rparr>]"
  have "activePhotoId (floatingPhotosFrame (pinchAt \<lparr>vx = 5, vy = 0, vz = 0\<rparr>) afterGrab)
        = Some (ph_id photoB)"
  proof (rule grab_switches_to_closest [where j = 0 and children = ?children])
    show "groupChildren afterGrab = Some ?children" by (simp add: afterGrab_eq)
    show "fr_handPosition (pinchAt \<lparr>vx = 5, vy = 0, vz = 0\<rparr>) = Some \<lparr>vx = 5, vy = 0, vz = 0\<rparr>"
      by (simp add: pinchAt_def)
    show "fr_isPinching (pinchAt \<lparr>vx = 5, vy = 0, vz = 0\<rparr>)" by (simp add: pinchAt_def)
    show "fr_appState (pinchAt \<lparr>vx = 5, vy = 0, vz = 0\<rparr>) = SCATTER" by (simp add: pinchAt_def)
    show "0 < length ?children" by simp
    show "elemAt (fr_photos (pinchAt \<lparr>vx = 5, vy = 0, vz = 0\<rparr>)) 0 = Some photoB"
      by (simp add: pinchAt_def elemAt_def)
    show "ph_id photoB \<noteq> []" by (simp add: photoB_def)
    show "distanceTo \<lparr>vx = 5, vy = 0, vz = 0\<rparr>
            (fr_worldOf (pinchAt \<lparr>vx = 5, vy = 0, vz = 0\<rparr>) (obj_position (?children ! 0))) < 1.5"
      by (simp add: pinchAt_def distanceTo_same_yz)
    show "\<forall>i < length ?children. i < length (fr_photos (pinchAt \<lparr>vx = 5, vy = 0, vz = 0\<rparr>)) \<longrightarrow>
        (i < 0 \<longrightarrow> distanceTo \<lparr>vx = 5, vy = 0, vz = 0\<rparr>
                       (fr_worldOf (pinchAt \<lparr>vx = 5, vy = 0, vz = 0\<rparr>) (obj_position (?children ! 0)))
                     < distanceTo \<lparr>vx = 5, vy = 0, vz = 0\<rparr>
                         (fr_worldOf (pinchAt \<lparr>vx = 5, vy = 0, vz = 0\<rparr>) (obj_position (?children ! i))))
      \<and> (0 < i \<longrightarrow> distanceTo \<lparr>vx = 5, vy = 0, vz = 0\<rparr>
                       (fr_worldOf (pinchAt \<lparr>vx = 5, vy = 0, vz = 0\<rparr>) (obj_position (?children ! 0)))
                     \<le> distanceTo \<lparr>vx = 5, vy = 0, vz = 0\<rparr>
                         (fr_worldOf (pinchAt \<lparr>vx = 5, vy = 0, vz = 0\<rparr>) (obj_position (?children ! i))))"
      by (simp add: pinchAt_def distanceTo_same_yz distanceTo_nonneg)
  qed
  then show ?thesis by (simp add: afterGrab_eq pinchAt_def photoB_def)
qed

subsection \<open>The blend factor of the photos\<close>

lemma lerp_blend: "lerp a v alpha = add3 a (scale3 alpha (sub3 v a))"
  by (simp add: lerp_def add3_def scale3_def sub3_def mult.commute)

lemma MathUtils_lerp_blend: "MathUtils_lerp x y t = x + t * (y - x)"
  by (simp add: MathUtils_lerp_def algebra_simps)

text \<open>
  Claim C8, as stated, has the photos move with the blend factor of the particle
  integrator. For the grabbed photo \<open>a\<close> of the two-photo scene, neither the new
  position nor the new scale of its billboard is what the particle integrator's
  smoothing step (blend 0.08) would give.
\<close>

theorem photo_blend_counterexample:
  "obj_position
     (animateChild (pinchAt \<lparr>vx = 0, vy = 0, vz = 0\<rparr>) (Some ''a'')
        (1, billboardAt (ph_position photoA)))
     \<noteq> interpolate (obj_position (billboardAt (ph_position photoA)))
         (fst (photoTarget (pinchAt \<lparr>vx = 0, vy = 0, vz = 0\<rparr>) (Some ''a'') 1 photoA))
   \<and> vx (obj_scale
            (animateChild (pinchAt \<lparr>vx = 0, vy = 0, vz = 0\<rparr>) (Some ''a'')
               (1, billboardAt (ph_position photoA))))
     \<noteq> MathUtils_lerp (vx (obj_scale (billboardAt (ph_position photoA))))
         (snd (photoTarget (pinchAt \<lparr>vx = 0, vy = 0, vz = 0\<rparr>) (Some ''a'') 1 photoA)) 0.08"
  by (simp add: animateChild_def photoTarget_def pinchAt_def photoA_def photoB_def
        billboardAt_def elemAt_def Let_def interpolate_def lerp_def MathUtils_lerp_def
        add3_def)

text \<open>
  Claim C8, amended. The position and the uniform scale of each photo that has a
  billboard move toward their targets by exponential smoothing with one shared blend
  factor, 0.1 per frame: \<open>new = old + 0.1 * (target - old)\<close>, the scale read from its
  \<open>x\<close> component and written to all three. This is not the blend factor of the particle
  integrator, which is 0.08.
\<close>

theorem photo_blend:
  assumes "elemAt (fr_photos inp) idx = Some photo"
  shows "obj_position (animateChild inp active (idx, child))
           = add3 (obj_position child)
               (scale3 0.1 (sub3 (fst (photoTarget inp active idx photo)) (obj_position child)))
       \<and> obj_scale (animateChild inp active (idx, child))
           = (let s = vx (obj_scale child)
                        + 0.1 * (snd (photoTarget inp active idx photo) - vx (obj_scale child))
              in \<lparr>vx = s, vy = s, vz = s\<rparr>)
       \<and> interpolate p t = add3 p (scale3 0.08 (sub3 t p))"
  using assms
  by (simp add: animateChild_def Let_def interpolate_def lerp_blend MathUtils_lerp_blend)

theorem photo_blend_witness:
  "elemAt (fr_photos (pinchAt \<lparr>vx = 0, vy = 0, vz = 0\<rparr>)) 1 = Some photoA \<and>
   obj_position
     (animateChild (pinchAt \<lparr>vx = 0, vy = 0, vz = 0\<rparr>) (Some ''a'')
        (1, billboardAt (ph_position photoA)))
     = \<lparr>vx = 0, vy = 0, vz = 0.05\<rparr>"
  using photo_blend [of "pinchAt \<lparr>vx = 0, vy = 0, vz = 0\<rparr>" 1 photoA "Some ''a''"
      "billboardAt (ph_position photoA)"]
  by (simp add: pinchAt_def elemAt_def photoTarget_def photoA_def billboardAt_def add3_def
        scale3_def sub3_def)

end
